theory Spec2Isabelle
  imports Main "HOL-Library.Word" "HOL-Library.Sublist"
begin

section \<open>SEA-Bridge document translation service\<close>

text \<open>
  A shallow embedding of \<^verbatim>\<open>translation-service/app\<close>: \<^verbatim>\<open>parsers.py\<close>,
  \<^verbatim>\<open>translator.py\<close> and the request handler of \<^verbatim>\<open>main.py\<close>.

  Conventions.
  \<^item> \<^verbatim>\<open>bytes\<close> is a list of 8-bit words.
  \<^item> Document text (a Python \<^verbatim>\<open>str\<close> that comes out of a decoder or a model) is a list
    of Unicode code points, so that its length counts what \<^verbatim>\<open>len\<close> counts.
  \<^item> File names, URLs, header values and form fields are \<open>string\<close>s: one \<open>char\<close> is one
    code point below 256.
  \<^item> An exception is a value \<open>Inl e\<close> of a sum type.
\<close>

subsection \<open>Values\<close>

type_synonym byte = "8 word"
type_synonym bytes = "byte list"
type_synonym str = "nat list"

datatype error =
    HTTPException int string
  | UnicodeDecodeError
  | UnicodeEncodeError
  | ValueError
  | OverflowError
  | PyException string

definition lit :: "string \<Rightarrow> str" where
  \<comment> \<open>a string literal of the source, as text\<close>
  "lit s = map of_char s"

fun join :: "'a list \<Rightarrow> 'a list list \<Rightarrow> 'a list" where
  \<comment> \<open>\<^verbatim>\<open>sep.join(xs)\<close>\<close>
  "join sep [] = []"
| "join sep [x] = x"
| "join sep (x # y # ys) = x @ sep @ join sep (y # ys)"

subsection \<open>The UTF-8 codec of \<^verbatim>\<open>bytes.decode\<close> and \<^verbatim>\<open>str.encode\<close>\<close>

text \<open>
  \<^verbatim>\<open>data.decode("utf-8", errors=...)\<close> reads one sequence at a time. A malformed
  sequence is reported with the range of bytes it covers: one byte for an invalid start
  byte, the bytes before the offending one for an invalid continuation byte, everything
  up to the end of the data for a truncated sequence. Under \<^verbatim>\<open>strict\<close> the report is
  a \<^verbatim>\<open>UnicodeDecodeError\<close>; under \<^verbatim>\<open>ignore\<close> the range is skipped; under
  \<^verbatim>\<open>replace\<close> it becomes one U+FFFD. Decoding resumes behind the range.
\<close>

datatype errors = Strict | Ignore | Replace

datatype utf8_step =
    Decoded nat bytes     \<comment> \<open>a code point and the bytes behind its sequence\<close>
  | Malformed bytes       \<comment> \<open>the bytes behind the malformed range\<close>

definition is_continuation :: "byte \<Rightarrow> bool" where
  "is_continuation c \<longleftrightarrow> 0x80 \<le> c \<and> c < 0xC0"

definition lead2 :: "byte \<Rightarrow> bytes \<Rightarrow> utf8_step" where
  "lead2 b bs =
     (case bs of
        [] \<Rightarrow> Malformed []
      | c2 # r \<Rightarrow>
          if \<not> is_continuation c2 then Malformed bs
          else Decoded (unat b * 64 + unat c2 - 12416) r)"

definition lead3 :: "byte \<Rightarrow> bytes \<Rightarrow> utf8_step" where
  "lead3 b bs =
     (case bs of
        [] \<Rightarrow> Malformed []
      | c2 # r2 \<Rightarrow>
          if \<not> is_continuation c2 \<or> (if c2 < 0xA0 then b = 0xE0 else b = 0xED)
          then Malformed bs
          else (case r2 of
                  [] \<Rightarrow> Malformed []
                | c3 # r \<Rightarrow>
                    if \<not> is_continuation c3 then Malformed r2
                    else Decoded (unat b * 4096 + unat c2 * 64 + unat c3 - 925824) r))"

definition lead4 :: "byte \<Rightarrow> bytes \<Rightarrow> utf8_step" where
  "lead4 b bs =
     (case bs of
        [] \<Rightarrow> Malformed []
      | c2 # r2 \<Rightarrow>
          if \<not> is_continuation c2 \<or> (if c2 < 0x90 then b = 0xF0 else b = 0xF4)
          then Malformed bs
          else (case r2 of
                  [] \<Rightarrow> Malformed []
                | c3 # r3 \<Rightarrow>
                    if \<not> is_continuation c3 then Malformed r2
                    else (case r3 of
                            [] \<Rightarrow> Malformed []
                          | c4 # r \<Rightarrow>
                              if \<not> is_continuation c4 then Malformed r3
                              else Decoded (unat b * 262144 + unat c2 * 4096
                                            + unat c3 * 64 + unat c4 - 63447168) r)))"

definition utf8_step :: "byte \<Rightarrow> bytes \<Rightarrow> utf8_step" where
  "utf8_step b bs =
     (if b < 0x80 then Decoded (unat b) bs
      else if b < 0xC2 then Malformed bs
      else if b < 0xE0 then lead2 b bs
      else if b < 0xF0 then lead3 b bs
      else if b < 0xF5 then lead4 b bs
      else Malformed bs)"

function utf8_decode :: "errors \<Rightarrow> bytes \<Rightarrow> error + str" where
  "utf8_decode m [] = Inr []"
| "utf8_decode m (b # bs) =
     (case utf8_step b bs of
        Decoded cp rest \<Rightarrow>
          (case utf8_decode m rest of Inl e \<Rightarrow> Inl e | Inr t \<Rightarrow> Inr (cp # t))
      | Malformed rest \<Rightarrow>
          (case m of
             Strict \<Rightarrow> Inl UnicodeDecodeError
           | Ignore \<Rightarrow> utf8_decode m rest
           | Replace \<Rightarrow>
               (case utf8_decode m rest of Inl e \<Rightarrow> Inl e | Inr t \<Rightarrow> Inr (0xFFFD # t))))"
  by pat_completeness auto
termination
  by (relation "measure (\<lambda>(m, bs). length bs)")
     (auto simp: utf8_step_def lead2_def lead3_def lead4_def less_Suc_eq_le
           split: if_splits list.splits)

definition utf8_encode_cp :: "nat \<Rightarrow> error + bytes" where
  \<comment> \<open>one code point; a surrogate cannot be encoded, and nothing above U+10FFFF is
      a character of a \<^verbatim>\<open>str\<close>\<close>
  "utf8_encode_cp cp =
     (if cp < 0x80 then Inr [of_nat cp]
      else if cp < 0x800 then Inr [of_nat (0xC0 + cp div 64), of_nat (0x80 + cp mod 64)]
      else if 0xD800 \<le> cp \<and> cp < 0xE000 then Inl UnicodeEncodeError
      else if cp < 0x10000 then
        Inr [of_nat (0xE0 + cp div 4096), of_nat (0x80 + cp div 64 mod 64),
             of_nat (0x80 + cp mod 64)]
      else if cp < 0x110000 then
        Inr [of_nat (0xF0 + cp div 262144), of_nat (0x80 + cp div 4096 mod 64),
             of_nat (0x80 + cp div 64 mod 64), of_nat (0x80 + cp mod 64)]
      else Inl UnicodeEncodeError)"

fun utf8_encode :: "str \<Rightarrow> error + bytes" where
  \<comment> \<open>\<^verbatim>\<open>text.encode("utf-8")\<close>\<close>
  "utf8_encode [] = Inr []"
| "utf8_encode (cp # t) =
     (case utf8_encode_cp cp of
        Inl e \<Rightarrow> Inl e
      | Inr bs \<Rightarrow> (case utf8_encode t of Inl e \<Rightarrow> Inl e | Inr r \<Rightarrow> Inr (bs @ r)))"

subsection \<open>\<^verbatim>\<open>parsers.py\<close>\<close>

definition lower_char :: "char \<Rightarrow> char" where
  \<comment> \<open>\<^verbatim>\<open>str.lower\<close> on a code point below 256: A to Z, and U+00C0 to U+00DE
      without the multiplication sign, move up by 32\<close>
  "lower_char c =
     (let k = (of_char c :: nat)
      in if (65 \<le> k \<and> k \<le> 90) \<or> (192 \<le> k \<and> k \<le> 222 \<and> k \<noteq> 215)
         then char_of (k + 32) else c)"

definition lower :: "string \<Rightarrow> string" where
  "lower s = map lower_char s"

definition rfind :: "char \<Rightarrow> string \<Rightarrow> int" where
  \<comment> \<open>\<^verbatim>\<open>s.rfind(c)\<close>: the last index of \<open>c\<close>, or -1\<close>
  "rfind c s =
     (case filter (\<lambda>i. s ! i = c) (rev [0..<length s]) of
        [] \<Rightarrow> - 1
      | i # _ \<Rightarrow> int i)"

definition ext_from_name :: "string \<Rightarrow> string" where
  "ext_from_name name =
     (let dot = rfind CHR ''.'' name
      in if dot \<noteq> - 1 then lower (drop (nat dot) name) else [])"

text \<open>
  The two optional parsing libraries are parameters: \<open>None\<close> when the import failed,
  otherwise what the library returns for the given bytes, the texts of the pages
  (PyMuPDF) or of the paragraphs (python-docx), or the name of the exception it raises.
  Third-party code raises exceptions of its own, never the \<^verbatim>\<open>HTTPException\<close> of
  the web framework.
\<close>

type_synonym parser_lib = "(bytes \<Rightarrow> string + str list) option"

definition extract_text_from_bytes ::
  "parser_lib \<Rightarrow> parser_lib \<Rightarrow> bytes \<Rightarrow> string \<Rightarrow> error + str \<times> string" where
  "extract_text_from_bytes fitz docx data filename_hint =
     (let ext = ext_from_name filename_hint
      in if ext = ''.pdf'' \<and> fitz \<noteq> None then
           (case the fitz data of
              Inl e \<Rightarrow> Inl (PyException e)
            | Inr text_chunks \<Rightarrow> Inr (join (lit [CHR 0x0A, CHR 0x0A]) text_chunks, ext))
         else if ext = ''.docx'' \<and> docx \<noteq> None then
           (case the docx data of
              Inl e \<Rightarrow> Inl (PyException e)
            | Inr paragraphs \<Rightarrow>
                Inr (join (lit [CHR 0x0A]) (filter (\<lambda>p. p \<noteq> []) paragraphs), ext))
         else
           (case utf8_decode Strict data of
              Inr text \<Rightarrow> Inr (text, ext)
            | Inl _ \<Rightarrow>
                (case utf8_decode Ignore data of
                   Inr text \<Rightarrow> Inr (text, ext)
                 | Inl e \<Rightarrow> Inl e)))"

definition choose_output_ext_and_mime :: "string \<Rightarrow> string \<times> string" where
  "choose_output_ext_and_mime preserve_format =
     (if preserve_format = ''markdown'' then (''.md'', ''text/markdown'')
      else (''.txt'', ''text/plain''))"

subsection \<open>\<^verbatim>\<open>translator.py\<close>: the chunker\<close>

text \<open>
  \<^verbatim>\<open>overlap = int(n * 0.05)\<close> multiplies in double precision. Every step of it is a
  computation on integers: the conversion of \<open>n\<close> to a double rounds to 53 significant
  bits (ties to even, \<^verbatim>\<open>OverflowError\<close> from \<open>2 ^ 1024\<close> on), the double nearest to
  0.05 is \<open>3602879701896397 / 2 ^ 56\<close>, the product is rounded the same way, and
  \<^verbatim>\<open>int\<close> truncates towards zero.
\<close>

fun bit_length :: "nat \<Rightarrow> nat" where
  "bit_length n = (if n = 0 then 0 else Suc (bit_length (n div 2)))"

declare bit_length.simps [simp del]

definition round53 :: "nat \<Rightarrow> nat" where
  \<comment> \<open>the nearest natural number with at most 53 significant bits, ties to even\<close>
  "round53 p =
     (let s = bit_length p - 53; q = p div 2 ^ s; r = p mod 2 ^ s
      in if 2 ^ s < 2 * r \<or> (2 * r = 2 ^ s \<and> odd q) then (q + 1) * 2 ^ s else q * 2 ^ s)"

definition int_times_0_05 :: "int \<Rightarrow> error + int" where
  \<comment> \<open>\<^verbatim>\<open>int(n * 0.05)\<close>\<close>
  "int_times_0_05 n =
     (let a = round53 (nat \<bar>n\<bar>)
      in if 2 ^ 1024 \<le> a then Inl OverflowError
         else let m = int (round53 (a * 3602879701896397) div 2 ^ 56)
              in Inr (if n < 0 then - m else m))"

definition py_slice :: "'a list \<Rightarrow> int \<Rightarrow> int \<Rightarrow> 'a list" where
  \<comment> \<open>\<^verbatim>\<open>xs[lo:hi]\<close>: a negative bound counts from the end, both are clamped\<close>
  "py_slice xs lo hi =
     (let len = int (length xs);
          clamp = (\<lambda>k. if k < 0 then max (k + len) 0 else min k len);
          l = clamp lo; h = clamp hi
      in take (nat (h - l)) (drop (nat l) xs))"

text \<open>
  The \<^verbatim>\<open>while\<close> loop of \<^verbatim>\<open>_chunks\<close>. Nothing in the source makes the stride
  \<open>n - overlap\<close> positive, so the loop is a partial function: \<open>None\<close> is a run that never
  leaves the loop.
\<close>

partial_function (option) chunks_loop ::
  "int \<Rightarrow> int \<Rightarrow> str \<Rightarrow> int \<Rightarrow> str list \<Rightarrow> str list option" where
  "chunks_loop n overlap text i chunks =
     (if i < int (length text)
      then chunks_loop n overlap text (i + (n - overlap)) (chunks @ [py_slice text i (i + n)])
      else Some chunks)"

declare chunks_loop.simps [code]

definition chunks :: "int \<Rightarrow> str \<Rightarrow> (error + str list) option" where
  \<comment> \<open>\<^verbatim>\<open>BedrockSeaLionTranslator._chunks\<close>, with \<open>n = self.chunk_chars\<close>\<close>
  "chunks n text =
     (if int (length text) \<le> n then Some (Inr [text])
      else (case int_times_0_05 n of
              Inl e \<Rightarrow> Some (Inl e)
            | Inr overlap \<Rightarrow> map_option Inr (chunks_loop n overlap text 0 [])))"

subsection \<open>\<^verbatim>\<open>translator.py\<close>: the two backends\<close>

text \<open>
  A Bedrock translator is its chunk budget and its client. The client is a parameter:
  \<open>invoke b prompt\<close> is what \<^verbatim>\<open>_invoke(prompt)\<close> returns, or the name of the
  exception it raises.
\<close>

record bedrock =
  chunk_chars :: int
  invoke :: "str \<Rightarrow> string + str"

datatype translator = PassThroughTranslator | BedrockSeaLionTranslator bedrock

fun str_nat :: "nat \<Rightarrow> string" where
  \<comment> \<open>\<^verbatim>\<open>str(n)\<close> for \<open>n \<ge> 0\<close>\<close>
  "str_nat n =
     (if n < 10 then [char_of (48 + n)] else str_nat (n div 10) @ [char_of (48 + n mod 10)])"

declare str_nat.simps [simp del]

definition str_int :: "int \<Rightarrow> string" where
  "str_int k = (if k < 0 then CHR ''-'' # str_nat (nat (- k)) else str_nat (nat k))"

definition system_prompt :: "string option \<Rightarrow> string" where
  "system_prompt source_lang =
     ''You are a professional translator specializing in Southeast Asian languages. ''
     @ ''Translate the following document into the requested target language. ''
     @ ''CRITICAL: Preserve ALL formatting, structure, and special characters. ''
     @ ''Maintain names, dates, times, and monetary amounts exactly as they appear. ''
     @ ''If the input is Markdown, keep all Markdown formatting intact. ''
     @ ''Do not add any explanations or commentary - only provide the translation.''
     @ (case source_lang of
          None \<Rightarrow> []
        | Some l \<Rightarrow> if l = [] then [] else '' The source language is '' @ l @ ''.'')"

definition prompt :: "string \<Rightarrow> string option \<Rightarrow> string \<Rightarrow> nat \<Rightarrow> str \<Rightarrow> str" where
  "prompt target_lang source_lang preserve_format idx chunk =
     lit (''System: '' @ system_prompt source_lang @ [CHR 0x0A, CHR 0x0A]
          @ ''Target language: '' @ target_lang @ [CHR 0x0A]
          @ ''Return format: ''
          @ (if preserve_format = ''markdown'' then ''Markdown'' else ''Plain text'')
          @ [CHR 0x0A, CHR 0x0A]
          @ ''Text chunk '' @ str_nat idx @ '' to translate:'' @ [CHR 0x0A])
     @ chunk
     @ lit ([CHR 0x0A, CHR 0x0A] @ ''Translation:'')"

text \<open>
  \<^verbatim>\<open>asyncio.gather(*tasks)\<close> runs the tasks concurrently. The order in which they
  complete is a parameter, a list of task indices. A completed task stores its result in
  the slot of its own index; the first task to complete with an exception ends the wait
  with that exception. The wait ends normally once every slot is filled, with the slots
  in index order; \<open>None\<close> is a wait that never ends (a task that never completes).
\<close>

fun gather_run :: "nat list \<Rightarrow> (error + 'a) list \<Rightarrow> 'a option list \<Rightarrow> error + 'a option list" where
  "gather_run [] outs slots = Inr slots"
| "gather_run (k # ks) outs slots =
     (if k < length outs
      then (case outs ! k of
              Inl e \<Rightarrow> Inl e
            | Inr r \<Rightarrow> gather_run ks outs (slots[k := Some r]))
      else gather_run ks outs slots)"

definition gather :: "nat list \<Rightarrow> (error + 'a) list \<Rightarrow> (error + 'a list) option" where
  "gather order outs =
     (case gather_run order outs (replicate (length outs) None) of
        Inl e \<Rightarrow> Some (Inl e)
      | Inr slots \<Rightarrow> if None \<in> set slots then None else Some (Inr (map the slots)))"

definition BedrockSeaLionTranslator_translate ::
  "bedrock \<Rightarrow> nat list \<Rightarrow> str \<Rightarrow> string \<Rightarrow> string option \<Rightarrow> string \<Rightarrow> (error + str) option" where
  "BedrockSeaLionTranslator_translate b order text target_lang source_lang preserve_format =
     (case chunks (chunk_chars b) text of
        None \<Rightarrow> None
      | Some (Inl e) \<Rightarrow> Some (Inl e)
      | Some (Inr cs) \<Rightarrow>
          (let tasks = map (\<lambda>(idx, chunk).
                              map_sum PyException id
                                (invoke b (prompt target_lang source_lang preserve_format idx chunk)))
                           (zip [1..<Suc (length cs)] cs)
           in case gather order tasks of
                None \<Rightarrow> None
              | Some (Inl e) \<Rightarrow> Some (Inl e)
              | Some (Inr translated_chunks) \<Rightarrow>
                  Some (Inr (join (lit [CHR 0x0A]) translated_chunks))))"

definition PassThroughTranslator_translate ::
  "str \<Rightarrow> string \<Rightarrow> string option \<Rightarrow> string \<Rightarrow> (error + str) option" where
  "PassThroughTranslator_translate text target_lang source_lang preserve_format =
     Some (Inr text)"

fun translate ::
  "translator \<Rightarrow> nat list \<Rightarrow> str \<Rightarrow> string \<Rightarrow> string option \<Rightarrow> string \<Rightarrow> (error + str) option" where
  \<comment> \<open>the method call \<^verbatim>\<open>translator.translate(...)\<close>, dispatched on the class\<close>
  "translate PassThroughTranslator order text target_lang source_lang preserve_format =
     PassThroughTranslator_translate text target_lang source_lang preserve_format"
| "translate (BedrockSeaLionTranslator b) order text target_lang source_lang preserve_format =
     BedrockSeaLionTranslator_translate b order text target_lang source_lang preserve_format"

text \<open>
  The process environment of \<^verbatim>\<open>get_translator\<close>: the environment variables, whether
  \<^verbatim>\<open>boto3\<close> and \<^verbatim>\<open>json\<close> could be imported, what \<^verbatim>\<open>boto3.client\<close> returns for a
  region (a client, given by its \<^verbatim>\<open>_invoke\<close>, or an exception), and \<^verbatim>\<open>int\<close> on a
  string (\<open>None\<close> for a \<^verbatim>\<open>ValueError\<close>).
\<close>

record runtime =
  environ :: "string \<rightharpoonup> string"
  boto3 :: bool
  boto3_client :: "string \<Rightarrow> string + (str \<Rightarrow> string + str)"
  py_int :: "string \<Rightarrow> int option"

definition getenv :: "runtime \<Rightarrow> string \<Rightarrow> string \<Rightarrow> string" where
  "getenv rt name dflt = (case environ rt name of None \<Rightarrow> dflt | Some v \<Rightarrow> v)"

definition BedrockSeaLionTranslator_init :: "runtime \<Rightarrow> error + bedrock" where
  "BedrockSeaLionTranslator_init rt =
     (if \<not> boto3 rt then Inl (PyException ''RuntimeError'')
      else let region = getenv rt ''AWS_REGION'' ''ap-southeast-1''
           in if region = [] then Inl (PyException ''RuntimeError'')
              else (case boto3_client rt region of
                      Inl e \<Rightarrow> Inl (PyException e)
                    | Inr client \<Rightarrow>
                        (case py_int rt (getenv rt ''CHUNK_CHARS'' ''12000'') of
                           None \<Rightarrow> Inl ValueError
                         | Some n \<Rightarrow> Inr \<lparr>chunk_chars = n, invoke = client\<rparr>)))"

definition get_translator :: "runtime \<Rightarrow> translator" where
  "get_translator rt =
     (if lower (getenv rt ''USE_BEDROCK'' ''false'') \<in> {''1'', ''true'', ''yes''}
      then (case BedrockSeaLionTranslator_init rt of
              Inr b \<Rightarrow> BedrockSeaLionTranslator b
            | Inl _ \<Rightarrow> PassThroughTranslator)
      else PassThroughTranslator)"

subsection \<open>\<^verbatim>\<open>main.py\<close>: the world outside the handler\<close>

text \<open>
  What the handler reads from its surroundings is a record: the configuration fixed at
  import time, the functions of the standard library that take a URL apart
  (\<^verbatim>\<open>urlparse(url).hostname\<close>, \<^verbatim>\<open>urlparse(url).path\<close>, \<^verbatim>\<open>fnmatch.fnmatch\<close>),
  the answers of the network to a HEAD, a GET and a PUT, SHA-256, the two parsing
  libraries, the process environment, the order in which concurrent model calls complete
  and the clock (\<^verbatim>\<open>int(time.time() * 1000)\<close>). The body of a GET answer is the list of
  chunks that \<^verbatim>\<open>iter_chunked\<close> yields.
\<close>

record head_response =
  head_status :: int
  head_headers :: "string \<rightharpoonup> string"

record get_response =
  get_status :: int
  get_text :: string
  get_content :: "bytes list"

record put_response =
  put_status :: int
  put_text :: string

record world =
  API_KEY :: string
  MAX_BYTES :: int
  ALLOWED_URL_HOSTS :: "string list"
  urlparse_hostname :: "string \<Rightarrow> string option"
  urlparse_path :: "string \<Rightarrow> string"
  fnmatch :: "string \<Rightarrow> string \<Rightarrow> bool"
  http_head :: "string \<Rightarrow> head_response"
  http_get :: "string \<Rightarrow> get_response"
  http_put :: "string \<Rightarrow> bytes \<Rightarrow> string \<Rightarrow> put_response"
  sha256_hexdigest :: "bytes \<Rightarrow> string"
  fitz :: parser_lib
  docx :: parser_lib
  process :: runtime
  completion_order :: "nat list"
  time_ms :: int

definition ALLOWED_EXTS :: "string set" where
  "ALLOWED_EXTS = {''.pdf'', ''.txt'', ''.md'', ''.rtf'', ''.html'', ''.htm'', ''.docx''}"

text \<open>
  The requests that leave the service are recorded in order. A computation with effects
  returns the events it caused and its result.
\<close>

datatype event =
    HEAD string
  | GET string
  | READ nat                 \<comment> \<open>one chunk of this many bytes taken from the GET stream\<close>
  | PUT string bytes string

type_synonym 'a io = "event list \<times> (error + 'a)"

subsection \<open>\<^verbatim>\<open>main.py\<close>: helpers\<close>

definition truthy :: "string option \<Rightarrow> bool" where
  \<comment> \<open>the truth value of an \<^verbatim>\<open>Optional[str]\<close>\<close>
  "truthy v = (case v of None \<Rightarrow> False | Some s \<Rightarrow> s \<noteq> [])"

definition ensure_auth :: "string \<Rightarrow> string option \<Rightarrow> error + unit" where
  "ensure_auth api_key auth_header =
     (if \<not> truthy auth_header \<or> \<not> prefix ''Bearer '' (the auth_header)
      then Inl (HTTPException 401 ''Missing bearer token'')
      else let h = the auth_header;
               token = drop (Suc (length (takeWhile (\<lambda>c. c \<noteq> CHR '' '') h))) h
           in if token \<noteq> api_key then Inl (HTTPException 403 ''Invalid token'')
              else Inr ())"

definition host_allowed :: "world \<Rightarrow> string \<Rightarrow> bool" where
  "host_allowed w url =
     (let host = (case urlparse_hostname w url of None \<Rightarrow> [] | Some h \<Rightarrow> h)
      in list_ex (\<lambda>pat. fnmatch w host pat) (ALLOWED_URL_HOSTS w))"

definition head_info :: "world \<Rightarrow> string \<Rightarrow> (int option \<times> string option \<times> string option) io" where
  "head_info w url =
     (let resp = http_head w url
      in if 400 \<le> head_status resp then ([HEAD url], Inr (None, None, None))
         else let sz = head_headers resp ''Content-Length'';
                  etag = head_headers resp ''ETag'';
                  ctype = head_headers resp ''Content-Type''
              in if truthy sz
                 then (case py_int (process w) (the sz) of
                         None \<Rightarrow> ([HEAD url], Inl ValueError)
                       | Some k \<Rightarrow> ([HEAD url], Inr (Some k, etag, ctype)))
                 else ([HEAD url], Inr (None, etag, ctype)))"

fun read_loop :: "int \<Rightarrow> bytes list \<Rightarrow> int \<Rightarrow> bytes list \<Rightarrow> bytes io" where
  \<comment> \<open>the \<^verbatim>\<open>async for\<close> of \<^verbatim>\<open>fetch_bytes\<close> over the chunks still to come\<close>
  "read_loop max_bytes [] read acc = ([], Inr (concat acc))"
| "read_loop max_bytes (chunk # rest) read acc =
     (let read' = read + int (length chunk)
      in if max_bytes < read'
         then ([READ (length chunk)], Inl (HTTPException 413 ''File too large''))
         else (case read_loop max_bytes rest read' (acc @ [chunk]) of
                 (tr, res) \<Rightarrow> (READ (length chunk) # tr, res)))"

definition fetch_bytes :: "world \<Rightarrow> string \<Rightarrow> int \<Rightarrow> bytes io" where
  "fetch_bytes w url max_bytes =
     (if \<not> host_allowed w url then ([], Inl (HTTPException 400 ''URL host not allowed''))
      else let resp = http_get w url
           in if get_status resp \<noteq> 200
              then ([GET url],
                    Inl (HTTPException 400
                           (''Failed to fetch file: '' @ str_int (get_status resp)
                            @ '' '' @ get_text resp)))
              else (case read_loop max_bytes (get_content resp) 0 [] of
                      (tr, res) \<Rightarrow> (GET url # tr, res)))"

definition put_bytes :: "world \<Rightarrow> string \<Rightarrow> bytes \<Rightarrow> string \<Rightarrow> unit io" where
  "put_bytes w url data content_type =
     (if \<not> host_allowed w url
      then ([], Inl (HTTPException 400 ''Output URL host not allowed''))
      else let resp = http_put w url data content_type
           in if put_status resp \<notin> {200, 201, 204}
              then ([PUT url data content_type],
                    Inl (HTTPException 400
                           (''Failed to upload to output_url: '' @ str_int (put_status resp)
                            @ '' '' @ put_text resp)))
              else ([PUT url data content_type], Inr ()))"

subsection \<open>\<^verbatim>\<open>main.py\<close>: the endpoint \<^verbatim>\<open>POST /v1/translate-file\<close>\<close>

text \<open>
  A multipart request as it arrives: every field may be missing. The framework binds it
  to the parameters of \<^verbatim>\<open>translate_file\<close>. It takes a form field that is present
  with the empty string for a missing one. A missing optional field takes the default of
  the signature, and a request without the required \<^verbatim>\<open>target_lang\<close> is answered
  with 422 before the handler runs. The \<^verbatim>\<open>Authorization\<close> header and the uploaded
  file are not form fields and are passed as they are.
\<close>

record upload =
  upload_filename :: "string option"
  upload_content :: bytes

record form =
  authorization_header :: "string option"
  file_url_field :: "string option"
  output_url_field :: "string option"
  file_part :: "upload option"
  target_lang_field :: "string option"
  source_lang_field :: "string option"
  preserve_format_field :: "string option"
  return_mode_field :: "string option"
  integrity_sha256_field :: "string option"

record request =
  authorization :: "string option"
  file_url :: "string option"
  output_url :: "string option"
  "file" :: "upload option"
  target_lang :: string
  source_lang :: "string option"
  preserve_format :: string
  return_mode :: string
  integrity_sha256 :: "string option"

definition form_value :: "string option \<Rightarrow> string option" where
  \<comment> \<open>the value of a \<^verbatim>\<open>Form\<close> field, the empty string counting as missing\<close>
  "form_value v = (case v of None \<Rightarrow> None | Some s \<Rightarrow> if s = [] then None else Some s)"

definition bind_form :: "form \<Rightarrow> error + request" where
  "bind_form f =
     (case form_value (target_lang_field f) of
        None \<Rightarrow> Inl (HTTPException 422 ''target_lang: field required'')
      | Some t \<Rightarrow>
          Inr \<lparr>authorization = authorization_header f,
               file_url = form_value (file_url_field f),
               output_url = form_value (output_url_field f),
               file = file_part f,
               target_lang = t,
               source_lang = form_value (source_lang_field f),
               preserve_format =
                 (case form_value (preserve_format_field f) of
                    None \<Rightarrow> ''markdown''
                  | Some v \<Rightarrow> v),
               return_mode =
                 (case form_value (return_mode_field f) of
                    None \<Rightarrow> ''async''
                  | Some v \<Rightarrow> v),
               integrity_sha256 = form_value (integrity_sha256_field f)\<rparr>)"

datatype response =
    JSONResponse "(string \<times> string) list"
  | StreamingResponse bytes string "(string \<times> string) list"
      \<comment> \<open>body, media type, headers\<close>

definition status_code :: "response \<Rightarrow> int" where
  \<comment> \<open>neither response is built with a status, so both carry the default\<close>
  "status_code resp = 200"

datatype task = NoTask | Task "(bytes \<times> string \<times> string) io option"

record result =
  events :: "event list"
  outcome :: "error + response"
  spawned :: task

definition failed :: "event list \<Rightarrow> error \<Rightarrow> result" where
  "failed tr e = \<lparr>events = tr, outcome = Inl e, spawned = NoTask\<rparr>"

definition resolve_filename :: "world \<Rightarrow> request \<Rightarrow> string" where
  \<comment> \<open>lines 110 to 112: the upload's name if it has one, else the last segment of the
      URL's path, else \<^verbatim>\<open>"file"\<close>\<close>
  "resolve_filename w r =
     (if file r \<noteq> None \<and> truthy (upload_filename (the (file r)))
      then the (upload_filename (the (file r)))
      else if truthy (file_url r)
      then rev (takeWhile (\<lambda>c. c \<noteq> CHR ''/'') (rev (urlparse_path w (the (file_url r)))))
      else ''file'')"

definition check_file_url :: "world \<Rightarrow> request \<Rightarrow> unit io" where
  \<comment> \<open>lines 118 to 123\<close>
  "check_file_url w r =
     (if truthy (file_url r)
      then if \<not> host_allowed w (the (file_url r))
           then ([], Inl (HTTPException 400 ''URL host not allowed''))
           else (case head_info w (the (file_url r)) of
                   (tr, Inl e) \<Rightarrow> (tr, Inl e)
                 | (tr, Inr (sz, _, _)) \<Rightarrow>
                     if sz \<noteq> None \<and> the sz \<noteq> 0 \<and> MAX_BYTES w < the sz
                     then (tr, Inl (HTTPException 413 ''File too large''))
                     else (tr, Inr ()))
      else ([], Inr ()))"

definition read_raw :: "world \<Rightarrow> request \<Rightarrow> bytes io" where
  \<comment> \<open>lines 125 to 130\<close>
  "read_raw w r =
     (case file r of
        Some u \<Rightarrow>
          (let raw = upload_content u
           in if MAX_BYTES w < int (length raw)
              then ([], Inl (HTTPException 413 ''File too large''))
              else ([], Inr raw))
      | None \<Rightarrow> fetch_bytes w (the (file_url r)) (MAX_BYTES w))"

definition do_work ::
  "world \<Rightarrow> translator \<Rightarrow> request \<Rightarrow> bytes \<Rightarrow> string \<Rightarrow> (bytes \<times> string \<times> string) io option" where
  "do_work w translator r raw filename =
     (case extract_text_from_bytes (fitz w) (docx w) raw filename of
        Inl e \<Rightarrow> Some ([], Inl e)
      | Inr (text, _) \<Rightarrow>
          (let (out_ext, out_mime) = choose_output_ext_and_mime (preserve_format r)
           in case translate translator (completion_order w) text (target_lang r)
                     (source_lang r) (preserve_format r) of
                None \<Rightarrow> None
              | Some (Inl e) \<Rightarrow> Some ([], Inl e)
              | Some (Inr translated_text) \<Rightarrow>
                  (let out_name = filename @ ''.translated'' @ out_ext
                   in case utf8_encode translated_text of
                        Inl e \<Rightarrow> Some ([], Inl e)
                      | Inr out_bytes \<Rightarrow>
                          if truthy (output_url r)
                          then (case put_bytes w (the (output_url r)) out_bytes out_mime of
                                  (tr, Inl e) \<Rightarrow> Some (tr, Inl e)
                                | (tr, Inr _) \<Rightarrow> Some (tr, Inr (out_bytes, out_mime, out_name)))
                          else Some ([], Inr (out_bytes, out_mime, out_name)))))"

definition translate_file :: "world \<Rightarrow> request \<Rightarrow> result option" where
  \<comment> \<open>\<open>None\<close>: the handler never answers\<close>
  "translate_file w r =
     (case ensure_auth (API_KEY w) (authorization r) of
        Inl e \<Rightarrow> Some (failed [] e)
      | Inr _ \<Rightarrow>
          if \<not> truthy (file_url r) \<and> file r = None
          then Some (failed [] (HTTPException 400 ''Provide file_url or multipart file''))
          else
            let filename = resolve_filename w r; ext = ext_from_name filename
            in if ext \<noteq> [] \<and> ext \<notin> ALLOWED_EXTS
               then Some (failed [] (HTTPException 415 (''Unsupported file type: '' @ ext)))
               else
                 (case check_file_url w r of
                    (tr1, Inl e) \<Rightarrow> Some (failed tr1 e)
                  | (tr1, Inr _) \<Rightarrow>
                      (case read_raw w r of
                         (tr2, Inl e) \<Rightarrow> Some (failed (tr1 @ tr2) e)
                       | (tr2, Inr raw) \<Rightarrow>
                           if truthy (integrity_sha256 r)
                              \<and> sha256_hexdigest w raw \<noteq> lower (the (integrity_sha256 r))
                           then Some (failed (tr1 @ tr2)
                                        (HTTPException 400 ''Integrity hash mismatch''))
                           else
                             let translator = get_translator (process w)
                             in if return_mode r = ''async''
                                then Some \<lparr>events = tr1 @ tr2,
                                           outcome = Inr (JSONResponse
                                             [(''job_id'', str_int (time_ms w)),
                                              (''status'', ''queued'')]),
                                           spawned = Task (do_work w translator r raw filename)\<rparr>
                                else
                                  (case do_work w translator r raw filename of
                                     None \<Rightarrow> None
                                   | Some (tr3, Inl e) \<Rightarrow> Some (failed (tr1 @ tr2 @ tr3) e)
                                   | Some (tr3, Inr (out_bytes, out_mime, out_name)) \<Rightarrow>
                                       if truthy (output_url r)
                                       then Some \<lparr>events = tr1 @ tr2 @ tr3,
                                                  outcome = Inr (JSONResponse
                                                    [(''status'', ''succeeded''),
                                                     (''output_url'', the (output_url r)),
                                                     (''filename'', out_name),
                                                     (''mime'', out_mime)]),
                                                  spawned = NoTask\<rparr>
                                       else Some \<lparr>events = tr1 @ tr2 @ tr3,
                                                  outcome = Inr (StreamingResponse out_bytes out_mime
                                                    [(''Content-Disposition'',
                                                      ''attachment; filename='' @ [CHR 0x22]
                                                      @ out_name @ [CHR 0x22])]),
                                                  spawned = NoTask\<rparr>))))"

definition post_translate_file :: "world \<Rightarrow> form \<Rightarrow> result option" where
  \<comment> \<open>the route: binding, then the handler\<close>
  "post_translate_file w f =
     (case bind_form f of
        Inl e \<Rightarrow> Some (failed [] e)
      | Inr r \<Rightarrow> translate_file w r)"

subsection \<open>Stages of the handler\<close>

definition translate_and_deliver ::
  "world \<Rightarrow> translator \<Rightarrow> request \<Rightarrow> str \<Rightarrow> string \<Rightarrow> (bytes \<times> string \<times> string) io option" where
  \<comment> \<open>lines 139 to 150: what \<^verbatim>\<open>do_work\<close> does with the text it has extracted\<close>
  "translate_and_deliver w translator r text filename =
     (let (out_ext, out_mime) = choose_output_ext_and_mime (preserve_format r)
      in case translate translator (completion_order w) text (target_lang r)
                (source_lang r) (preserve_format r) of
           None \<Rightarrow> None
         | Some (Inl e) \<Rightarrow> Some ([], Inl e)
         | Some (Inr translated_text) \<Rightarrow>
             (let out_name = filename @ ''.translated'' @ out_ext
              in case utf8_encode translated_text of
                   Inl e \<Rightarrow> Some ([], Inl e)
                 | Inr out_bytes \<Rightarrow>
                     if truthy (output_url r)
                     then (case put_bytes w (the (output_url r)) out_bytes out_mime of
                             (tr, Inl e) \<Rightarrow> Some (tr, Inl e)
                           | (tr, Inr _) \<Rightarrow> Some (tr, Inr (out_bytes, out_mime, out_name)))
                     else Some ([], Inr (out_bytes, out_mime, out_name))))"

definition admitted :: "world \<Rightarrow> request \<Rightarrow> bool" where
  \<comment> \<open>the request passes the checks that come before any network call\<close>
  "admitted w r \<longleftrightarrow>
     ensure_auth (API_KEY w) (authorization r) = Inr ()
     \<and> (truthy (file_url r) \<or> file r \<noteq> None)
     \<and> (ext_from_name (resolve_filename w r) = []
        \<or> ext_from_name (resolve_filename w r) \<in> ALLOWED_EXTS)"

definition sourced :: "world \<Rightarrow> request \<Rightarrow> event list \<Rightarrow> bytes \<Rightarrow> bool" where
  \<comment> \<open>the request reaches the translation step with these events and these bytes\<close>
  "sourced w r tr raw \<longleftrightarrow>
     admitted w r
     \<and> (\<exists>tr1 tr2 u. check_file_url w r = (tr1, Inr u) \<and> read_raw w r = (tr2, Inr raw)
          \<and> tr = tr1 @ tr2)
     \<and> \<not> (truthy (integrity_sha256 r)
          \<and> sha256_hexdigest w raw \<noteq> lower (the (integrity_sha256 r)))"

subsection \<open>A development deployment\<close>

text \<open>
  The concrete inputs of the examples below: a service with the default configuration and
  no optional library, whose only reachable host is one bucket, and a request that uploads
  a file.
\<close>

definition decimal :: "string \<Rightarrow> int option" where
  \<comment> \<open>\<^verbatim>\<open>int(s)\<close> on a non-empty string of ASCII digits; other strings are not needed\<close>
  "decimal s =
     (if s \<noteq> [] \<and> list_all (\<lambda>c. 48 \<le> (of_char c :: int) \<and> (of_char c :: int) \<le> 57) s
      then Some (foldl (\<lambda>a c. 10 * a + (of_char c - 48)) 0 s)
      else None)"

definition dev_runtime :: runtime where
  "dev_runtime =
     \<lparr>environ = Map.empty, boto3 = False,
      boto3_client = (\<lambda>region. Inl ''NoCredentialsError''),
      py_int = decimal\<rparr>"

definition dev_world :: world where
  "dev_world =
     \<lparr>API_KEY = ''devkey'',
      MAX_BYTES = 52428800,
      ALLOWED_URL_HOSTS = [''s3.amazonaws.com'', ''*.s3.amazonaws.com'',
                           ''s3.*.amazonaws.com'', ''*.s3.*.amazonaws.com''],
      urlparse_hostname =
        (\<lambda>url. if prefix ''https://bucket.s3.amazonaws.com/'' url
               then Some ''bucket.s3.amazonaws.com'' else None),
      urlparse_path = (\<lambda>url. drop 31 url),
      fnmatch = (\<lambda>host pat. host = pat
                   \<or> (pat = ''*.s3.amazonaws.com'' \<and> suffix ''.s3.amazonaws.com'' host)),
      http_head = (\<lambda>url. \<lparr>head_status = 200,
                            head_headers = [''Content-Length'' \<mapsto> ''11'']\<rparr>),
      http_get = (\<lambda>url. \<lparr>get_status = 200, get_text = [],
                           get_content = [[0x48, 0x65, 0x6C, 0x6C, 0x6F, 0x20],
                                          [0x77, 0x6F, 0x72, 0x6C, 0x64]]\<rparr>),
      http_put = (\<lambda>url data content_type. \<lparr>put_status = 200, put_text = []\<rparr>),
      sha256_hexdigest = (\<lambda>data. []),
      fitz = None,
      docx = None,
      process = dev_runtime,
      completion_order = [],
      time_ms = 1700000000000\<rparr>"

definition upload_request :: "string \<Rightarrow> bytes \<Rightarrow> request" where
  "upload_request name data =
     \<lparr>authorization = Some ''Bearer devkey'',
      file_url = None,
      output_url = None,
      file = Some \<lparr>upload_filename = Some name, upload_content = data\<rparr>,
      target_lang = ''vi'',
      source_lang = None,
      preserve_format = ''markdown'',
      return_mode = ''sync'',
      integrity_sha256 = None\<rparr>"

definition echo_invoke :: "str \<Rightarrow> string + str" where
  \<comment> \<open>a stand-in for the model: it answers with the last line of the text to translate\<close>
  "echo_invoke p = Inr (rev (takeWhile (\<lambda>c. c \<noteq> 10) (drop 14 (rev p))))"

section \<open>Properties\<close>

subsection \<open>The UTF-8 decoder\<close>

text \<open>
  A decoded sequence depends only on its own bytes, a malformed range is a prefix of the
  input, and decoding with \<^verbatim>\<open>errors="ignore"\<close> never fails: its result is the strict
  decoding of the input with some bytes left out.
\<close>

lemma lead2_Decoded:
  "lead2 b bs = Decoded cp rest \<Longrightarrow>
     \<exists>c2. bs = c2 # rest \<and> (\<forall>rest'. lead2 b (c2 # rest') = Decoded cp rest')"
  by (auto simp: lead2_def split: list.splits if_splits)

lemma lead3_Decoded:
  "lead3 b bs = Decoded cp rest \<Longrightarrow>
     \<exists>c2 c3. bs = c2 # c3 # rest \<and> (\<forall>rest'. lead3 b (c2 # c3 # rest') = Decoded cp rest')"
  by (auto simp: lead3_def split: list.splits if_splits)

lemma lead4_Decoded:
  "lead4 b bs = Decoded cp rest \<Longrightarrow>
     \<exists>c2 c3 c4. bs = c2 # c3 # c4 # rest
        \<and> (\<forall>rest'. lead4 b (c2 # c3 # c4 # rest') = Decoded cp rest')"
  by (auto simp: lead4_def split: list.splits if_splits)

lemma utf8_step_Decoded_prefix:
  assumes "utf8_step b bs = Decoded cp rest"
  shows "\<exists>pre. bs = pre @ rest \<and> (\<forall>rest'. utf8_step b (pre @ rest') = Decoded cp rest')"
proof -
  consider (one) "b < 0x80" | (two) "\<not> b < 0x80" "\<not> b < 0xC2" "b < 0xE0"
    | (three) "\<not> b < 0x80" "\<not> b < 0xC2" "\<not> b < 0xE0" "b < 0xF0"
    | (four) "\<not> b < 0x80" "\<not> b < 0xC2" "\<not> b < 0xE0" "\<not> b < 0xF0" "b < 0xF5"
    using assms by (auto simp: utf8_step_def split: if_splits)
  then show ?thesis
  proof cases
    case one
    with assms have "bs = [] @ rest \<and> (\<forall>rest'. utf8_step b ([] @ rest') = Decoded cp rest')"
      by (simp add: utf8_step_def)
    then show ?thesis by blast
  next
    case two
    with assms have "lead2 b bs = Decoded cp rest" by (simp add: utf8_step_def)
    then obtain c2 where "bs = c2 # rest" "\<forall>rest'. lead2 b (c2 # rest') = Decoded cp rest'"
      using lead2_Decoded by blast
    with two have "bs = [c2] @ rest \<and> (\<forall>rest'. utf8_step b ([c2] @ rest') = Decoded cp rest')"
      by (simp add: utf8_step_def)
    then show ?thesis by blast
  next
    case three
    with assms have "lead3 b bs = Decoded cp rest" by (simp add: utf8_step_def)
    then obtain c2 c3 where "bs = c2 # c3 # rest"
        "\<forall>rest'. lead3 b (c2 # c3 # rest') = Decoded cp rest'"
      using lead3_Decoded by blast
    with three have "bs = [c2, c3] @ rest
        \<and> (\<forall>rest'. utf8_step b ([c2, c3] @ rest') = Decoded cp rest')"
      by (simp add: utf8_step_def)
    then show ?thesis by blast
  next
    case four
    with assms have "lead4 b bs = Decoded cp rest" by (simp add: utf8_step_def)
    then obtain c2 c3 c4 where "bs = c2 # c3 # c4 # rest"
        "\<forall>rest'. lead4 b (c2 # c3 # c4 # rest') = Decoded cp rest'"
      using lead4_Decoded by blast
    with four have "bs = [c2, c3, c4] @ rest
        \<and> (\<forall>rest'. utf8_step b ([c2, c3, c4] @ rest') = Decoded cp rest')"
      by (simp add: utf8_step_def)
    then show ?thesis by blast
  qed
qed

lemma utf8_step_Malformed_suffix:
  "utf8_step b bs = Malformed rest \<Longrightarrow> suffix rest bs"
  unfolding utf8_step_def lead2_def lead3_def lead4_def
  by (auto split: if_splits list.splits simp: suffix_def)

lemma utf8_decode_Ignore_total: "\<exists>t. utf8_decode Ignore bs = Inr t"
  by (induction Ignore bs rule: utf8_decode.induct)
     (auto split: utf8_step.splits sum.splits)

lemma utf8_decode_Ignore_subseq_aux:
  "m = Ignore \<Longrightarrow> utf8_decode m bs = Inr t \<Longrightarrow>
     \<exists>kept. subseq kept bs \<and> utf8_decode Strict kept = Inr t"
proof (induction m bs arbitrary: t rule: utf8_decode.induct)
  case (1 m)
  then have "subseq [] ([]::bytes) \<and> utf8_decode Strict [] = Inr t" by simp
  then show ?case by blast
next
  case (2 m b bs)
  show ?case
  proof (cases "utf8_step b bs")
    case (Decoded cp rest)
    with "2.prems" obtain t' where t': "utf8_decode m rest = Inr t'" "t = cp # t'"
      by (auto split: sum.splits)
    from "2.IH"(1) Decoded "2.prems"(1) t'(1) obtain kept where
      kept: "subseq kept rest" "utf8_decode Strict kept = Inr t'" by blast
    from utf8_step_Decoded_prefix[OF Decoded] obtain pre where
      pre: "bs = pre @ rest" "\<forall>rest'. utf8_step b (pre @ rest') = Decoded cp rest'" by blast
    have "subseq (b # pre @ kept) (b # bs)"
      using kept(1) pre(1) by (simp add: subseq_append')
    moreover have "utf8_decode Strict (b # pre @ kept) = Inr t"
      using pre(2) kept(2) t'(2) by simp
    ultimately show ?thesis by blast
  next
    case (Malformed rest)
    with "2.prems" have "utf8_decode m rest = Inr t" by simp
    with "2.IH"(2) Malformed "2.prems"(1) obtain kept where
      kept: "subseq kept rest" "utf8_decode Strict kept = Inr t" by blast
    have "suffix rest (b # bs)"
      using utf8_step_Malformed_suffix[OF Malformed] by (simp add: suffix_Cons)
    then have "subseq rest (b # bs)" by (rule suffix_imp_subseq)
    with kept(1) have "subseq kept (b # bs)" by (rule subseq_order.trans)
    with kept(2) show ?thesis by blast
  qed
qed

lemma utf8_decode_Ignore_subseq:
  "utf8_decode Ignore bs = Inr t \<Longrightarrow>
     \<exists>kept. subseq kept bs \<and> utf8_decode Strict kept = Inr t"
  by (rule utf8_decode_Ignore_subseq_aux) simp_all

subsection \<open>The content extractor\<close>

lemma extract_fallback:
  assumes "\<not> (ext_from_name name = ''.pdf'' \<and> fz \<noteq> None)"
      and "\<not> (ext_from_name name = ''.docx'' \<and> dx \<noteq> None)"
  shows "\<exists>text. extract_text_from_bytes fz dx data name = Inr (text, ext_from_name name)
           \<and> (case utf8_decode Strict data of
                 Inr t \<Rightarrow> text = t
               | Inl _ \<Rightarrow> utf8_decode Ignore data = Inr text)
           \<and> (\<exists>kept. subseq kept data \<and> utf8_decode Strict kept = Inr text)"
proof (cases "utf8_decode Strict data")
  case (Inr t)
  then have "extract_text_from_bytes fz dx data name = Inr (t, ext_from_name name)"
    using assms by (auto simp: extract_text_from_bytes_def Let_def)
  moreover have "subseq data data" by simp
  ultimately show ?thesis using Inr by auto
next
  case (Inl e)
  obtain t where t: "utf8_decode Ignore data = Inr t"
    using utf8_decode_Ignore_total by blast
  then have "extract_text_from_bytes fz dx data name = Inr (t, ext_from_name name)"
    using assms Inl by (auto simp: extract_text_from_bytes_def Let_def)
  then show ?thesis using Inl t utf8_decode_Ignore_subseq[OF t] by auto
qed

text \<open>
  Claim C2, as amended. When the file name ends in \<^verbatim>\<open>.pdf\<close> (in any case) and the PDF
  library is unavailable, or ends in \<^verbatim>\<open>.docx\<close> and the DOCX library is unavailable,
  extraction does not fail as an unsupported format: it falls back to decoding the raw
  bytes as UTF-8, strictly if that succeeds and with the undecodable bytes ignored
  otherwise, and returns that text with the extension.
\<close>

theorem extract_without_parser_falls_back:
  assumes "(ext_from_name name = ''.pdf'' \<and> fz = None)
           \<or> (ext_from_name name = ''.docx'' \<and> dx = None)"
  shows "\<exists>text. extract_text_from_bytes fz dx data name = Inr (text, ext_from_name name)
           \<and> (case utf8_decode Strict data of
                 Inr t \<Rightarrow> text = t
               | Inl _ \<Rightarrow> utf8_decode Ignore data = Inr text)"
proof -
  have "\<not> (ext_from_name name = ''.pdf'' \<and> fz \<noteq> None)"
       "\<not> (ext_from_name name = ''.docx'' \<and> dx \<noteq> None)"
    using assms by auto
  from extract_fallback[OF this] show ?thesis by blast
qed

theorem extract_without_parser_falls_back_witness:
  "\<exists>text. extract_text_from_bytes None None [0x25, 0x50, 0x44, 0x46] ''scan.PDF''
             = Inr (text, ext_from_name ''scan.PDF'')
         \<and> (case utf8_decode Strict [0x25, 0x50, 0x44, 0x46] of
               Inr t \<Rightarrow> text = t
             | Inl _ \<Rightarrow> utf8_decode Ignore [0x25, 0x50, 0x44, 0x46] = Inr text)"
proof -
  have "ext_from_name ''scan.PDF'' = ''.pdf''" by code_simp
  then have h: "(ext_from_name ''scan.PDF'' = ''.pdf'' \<and> (None :: parser_lib) = None)
                \<or> (ext_from_name ''scan.PDF'' = ''.docx'' \<and> (None :: parser_lib) = None)"
    by simp
  show ?thesis by (rule extract_without_parser_falls_back[OF h])
qed

text \<open>
  The claim as stated fails: with neither library installed, a file named
  \<^verbatim>\<open>scan.PDF\<close> that starts with \<^verbatim>\<open>%PDF\<close> and a file named \<^verbatim>\<open>memo.docx\<close> that
  starts with \<^verbatim>\<open>PK\<close> are both extracted, as the text of their raw bytes.
\<close>

theorem extract_without_parser_counterexample:
  "\<not> (\<exists>e. extract_text_from_bytes None None [0x25, 0x50, 0x44, 0x46] ''scan.PDF'' = Inl e)
   \<and> extract_text_from_bytes None None [0x25, 0x50, 0x44, 0x46] ''scan.PDF''
       = Inr ([0x25, 0x50, 0x44, 0x46], ''.pdf'')
   \<and> extract_text_from_bytes None None [0x50, 0x4B] ''memo.docx''
       = Inr ([0x50, 0x4B], ''.docx'')"
proof -
  have a: "extract_text_from_bytes None None [0x25, 0x50, 0x44, 0x46] ''scan.PDF''
             = Inr ([0x25, 0x50, 0x44, 0x46], ''.pdf'')"
    by code_simp
  have b: "extract_text_from_bytes None None [0x50, 0x4B] ''memo.docx''
             = Inr ([0x50, 0x4B], ''.docx'')"
    by code_simp
  show ?thesis using a b by simp
qed

text \<open>
  Claim C7, as amended. When the file name indicates neither PDF nor DOCX, extraction
  decodes the bytes as UTF-8 and never fails: when strict decoding fails it decodes again
  with \<^verbatim>\<open>errors="ignore"\<close>, so the invalid byte sequences are dropped, not replaced, and
  the text is the strict decoding of the bytes that were kept.
\<close>

theorem extract_plain_text_drops_invalid:
  assumes "ext_from_name name \<notin> {''.pdf'', ''.docx''}"
  shows "\<exists>text. extract_text_from_bytes fz dx data name = Inr (text, ext_from_name name)
           \<and> (case utf8_decode Strict data of
                 Inr t \<Rightarrow> text = t
               | Inl _ \<Rightarrow> utf8_decode Ignore data = Inr text)
           \<and> (\<exists>kept. subseq kept data \<and> utf8_decode Strict kept = Inr text)"
proof -
  have "\<not> (ext_from_name name = ''.pdf'' \<and> fz \<noteq> None)"
       "\<not> (ext_from_name name = ''.docx'' \<and> dx \<noteq> None)"
    using assms by auto
  then show ?thesis by (rule extract_fallback)
qed

theorem extract_plain_text_drops_invalid_witness:
  "\<exists>text. extract_text_from_bytes None None [0x61, 0xFF, 0x62] ''notes.txt''
             = Inr (text, ext_from_name ''notes.txt'')
         \<and> (case utf8_decode Strict [0x61, 0xFF, 0x62] of
               Inr t \<Rightarrow> text = t
             | Inl _ \<Rightarrow> utf8_decode Ignore [0x61, 0xFF, 0x62] = Inr text)
         \<and> (\<exists>kept. subseq kept [0x61, 0xFF, 0x62] \<and> utf8_decode Strict kept = Inr text)"
proof -
  have "ext_from_name ''notes.txt'' = ''.txt''" by code_simp
  then have h: "ext_from_name ''notes.txt'' \<notin> {''.pdf'', ''.docx''}" by simp
  show ?thesis by (rule extract_plain_text_drops_invalid[OF h])
qed

text \<open>
  The claim as stated fails: the byte \<open>0xFF\<close> between \<^verbatim>\<open>a\<close> and \<^verbatim>\<open>b\<close> leaves no trace
  in the extracted text, where \<^verbatim>\<open>errors="replace"\<close> would have put U+FFFD.
\<close>

theorem extract_plain_text_counterexample:
  "extract_text_from_bytes None None [0x61, 0xFF, 0x62] ''notes.txt''
     = Inr ([0x61, 0x62], ''.txt'')
   \<and> utf8_decode Replace [0x61, 0xFF, 0x62] = Inr [0x61, 0xFFFD, 0x62]"
proof -
  have e: "ext_from_name ''notes.txt'' = ''.txt''" by code_simp
  have s: "utf8_decode Strict [0x61, 0xFF, 0x62] = Inl UnicodeDecodeError"
    by (simp add: utf8_step_def)
  have i: "utf8_decode Ignore [0x61, 0xFF, 0x62] = Inr [0x61, 0x62]"
    by (simp add: utf8_step_def)
  have a: "extract_text_from_bytes None None [0x61, 0xFF, 0x62] ''notes.txt''
             = Inr ([0x61, 0x62], ''.txt'')"
    unfolding extract_text_from_bytes_def e s i by simp
  have b: "utf8_decode Replace [0x61, 0xFF, 0x62] = Inr [0x61, 0xFFFD, 0x62]"
    by (simp add: utf8_step_def)
  show ?thesis using a b by simp
qed

subsection \<open>The pass-through backend\<close>

text \<open>
  Claim C8. For every text, target language, optional source language and
  \<^verbatim>\<open>preserve_format\<close> value, \<^verbatim>\<open>translate\<close> of the pass-through backend returns its
  text argument unchanged. The completion order plays no part, since the backend makes no
  concurrent call.
\<close>

theorem passthrough_translate_unchanged:
  "translate PassThroughTranslator order text tgt src fmt = Some (Inr text)"
  by (simp add: PassThroughTranslator_translate_def)

theorem passthrough_translate_unchanged_witness:
  "translate PassThroughTranslator [] [72, 105, 33] ''vi'' None ''markdown''
     = Some (Inr [72, 105, 33])"
  by (rule passthrough_translate_unchanged)

subsection \<open>What each step can raise\<close>

lemma rfind_absent: "c \<notin> set s \<Longrightarrow> rfind c s = - 1"
proof -
  assume "c \<notin> set s"
  then have "filter (\<lambda>i. s ! i = c) (rev [0..<length s]) = []"
    by (auto simp: filter_empty_conv)
  then show ?thesis by (simp add: rfind_def)
qed

lemma ext_from_name_no_dot: "CHR ''.'' \<notin> set name \<Longrightarrow> ext_from_name name = []"
  by (simp add: ext_from_name_def rfind_absent)

lemma nth_mem_eq: "k < length xs \<Longrightarrow> xs ! k = x \<Longrightarrow> x \<in> set xs"
  by auto

lemma gather_run_error: "gather_run order outs slots = Inl e \<Longrightarrow> Inl e \<in> set outs"
  by (induction order arbitrary: slots)
     (auto split: if_splits sum.splits intro: nth_mem_eq)

lemma gather_error: "gather order outs = Some (Inl e) \<Longrightarrow> Inl e \<in> set outs"
  by (auto simp: gather_def split: sum.splits if_splits dest: gather_run_error)

lemma int_times_0_05_error: "int_times_0_05 n = Inl e \<Longrightarrow> e = OverflowError"
  by (auto simp: int_times_0_05_def Let_def split: if_splits)

lemma chunks_error: "chunks n text = Some (Inl e) \<Longrightarrow> e = OverflowError"
  by (auto simp: chunks_def split: if_splits sum.splits dest: int_times_0_05_error)

lemma translate_error:
  assumes a: "translate tr order text tgt src fmt = Some (Inl e)"
  shows "e = OverflowError \<or> (\<exists>n. e = PyException n)"
proof (cases tr)
  case PassThroughTranslator
  with a show ?thesis by (simp add: PassThroughTranslator_translate_def)
next
  case (BedrockSeaLionTranslator b)
  show ?thesis
  proof (cases "chunks (chunk_chars b) text")
    case None
    with a BedrockSeaLionTranslator show ?thesis
      by (simp add: BedrockSeaLionTranslator_translate_def)
  next
    case (Some c)
    show ?thesis
    proof (cases c)
      case (Inl e')
      with a Some BedrockSeaLionTranslator have "e = e'"
        by (simp add: BedrockSeaLionTranslator_translate_def)
      with Some Inl show ?thesis using chunks_error by blast
    next
      case (Inr cs)
      define tasks where "tasks = map (\<lambda>(idx, chunk). map_sum PyException id
                                (invoke b (prompt tgt src fmt idx chunk)))
                           (zip [1..<Suc (length cs)] cs)"
      from a Some Inr BedrockSeaLionTranslator have "gather order tasks = Some (Inl e)"
        unfolding tasks_def
        by (simp add: BedrockSeaLionTranslator_translate_def Let_def del: upt_Suc
                 split: option.splits sum.splits)
      then have "Inl e \<in> set tasks" by (rule gather_error)
      then show ?thesis unfolding tasks_def by (auto split: sum.splits simp: map_sum_def)
    qed
  qed
qed

lemma utf8_decode_error: "utf8_decode m bs = Inl e \<Longrightarrow> e = UnicodeDecodeError"
  by (induction m bs rule: utf8_decode.induct)
     (auto split: utf8_step.splits sum.splits errors.splits)

lemma utf8_encode_cp_error: "utf8_encode_cp cp = Inl e \<Longrightarrow> e = UnicodeEncodeError"
  by (auto simp: utf8_encode_cp_def split: if_splits)

lemma utf8_encode_error: "utf8_encode t = Inl e \<Longrightarrow> e = UnicodeEncodeError"
  by (induction t) (auto split: sum.splits dest: utf8_encode_cp_error)

lemma extract_error:
  "extract_text_from_bytes fz dx data name = Inl e \<Longrightarrow>
     e = UnicodeDecodeError \<or> (\<exists>n. e = PyException n)"
  by (auto simp: extract_text_from_bytes_def Let_def
           split: if_splits sum.splits dest: utf8_decode_error)

lemma put_bytes_error:
  "put_bytes w url data ct = (tr, Inl e) \<Longrightarrow>
     e = HTTPException 400 ''Output URL host not allowed''
     \<or> (\<exists>x. e = HTTPException 400 (''Failed to upload to output_url: '' @ x))"
  by (auto simp: put_bytes_def Let_def split: if_splits)

lemma do_work_error:
  assumes "do_work w tr r raw name = Some (t, Inl e)"
  shows "e = UnicodeDecodeError \<or> e = UnicodeEncodeError \<or> e = OverflowError
         \<or> (\<exists>n. e = PyException n)
         \<or> e = HTTPException 400 ''Output URL host not allowed''
         \<or> (\<exists>x. e = HTTPException 400 (''Failed to upload to output_url: '' @ x))"
  using assms
  by (auto simp: do_work_def Let_def
           split: sum.splits option.splits prod.splits if_splits
           dest: extract_error translate_error utf8_encode_error put_bytes_error)

lemma head_info_events: "head_info w url = (tr, res) \<Longrightarrow> tr = [HEAD url]"
  by (auto simp: head_info_def Let_def split: if_splits option.splits)

lemma head_info_error: "head_info w url = (tr, Inl e) \<Longrightarrow> e = ValueError"
  by (auto simp: head_info_def Let_def split: if_splits option.splits)

lemma check_file_url_error:
  "check_file_url w r = (tr, Inl e) \<Longrightarrow>
     e = HTTPException 400 ''URL host not allowed'' \<or> e = ValueError
     \<or> e = HTTPException 413 ''File too large''"
  by (auto simp: check_file_url_def split: if_splits prod.splits sum.splits
           dest: head_info_error)

lemma check_file_url_events:
  "check_file_url w r = (tr, res) \<Longrightarrow> tr = [] \<or> tr = [HEAD (the (file_url r))]"
  by (auto simp: check_file_url_def split: if_splits prod.splits sum.splits
           dest: head_info_events)

lemma read_loop_error:
  "read_loop mx cs rd acc = (tr, Inl e) \<Longrightarrow> e = HTTPException 413 ''File too large''"
  by (induction cs arbitrary: rd acc tr)
     (auto simp: Let_def split: if_splits prod.splits)

lemma fetch_bytes_error:
  assumes "fetch_bytes w url mx = (tr, Inl e)"
  shows "e = HTTPException 400 ''URL host not allowed''
         \<or> (\<exists>x. e = HTTPException 400 (''Failed to fetch file: '' @ x))
         \<or> e = HTTPException 413 ''File too large''"
proof (cases "host_allowed w url")
  case False
  with assms show ?thesis by (simp add: fetch_bytes_def)
next
  case True
  show ?thesis
  proof (cases "get_status (http_get w url) = 200")
    case False
    with assms True have
      "e = HTTPException 400 (''Failed to fetch file: ''
             @ (str_int (get_status (http_get w url)) @ '' '' @ get_text (http_get w url)))"
      by (simp add: fetch_bytes_def Let_def)
    then show ?thesis by blast
  next
    case ok: True
    obtain t2 res where rl: "read_loop mx (get_content (http_get w url)) 0 [] = (t2, res)"
      by (cases "read_loop mx (get_content (http_get w url)) 0 []")
    with assms True ok have "res = Inl e" by (simp add: fetch_bytes_def Let_def)
    with rl show ?thesis using read_loop_error by blast
  qed
qed

lemma read_raw_error:
  assumes "read_raw w r = (tr, Inl e)"
  shows "e = HTTPException 400 ''URL host not allowed''
         \<or> (\<exists>x. e = HTTPException 400 (''Failed to fetch file: '' @ x))
         \<or> e = HTTPException 413 ''File too large''"
proof (cases "file r")
  case None
  with assms have "fetch_bytes w (the (file_url r)) (MAX_BYTES w) = (tr, Inl e)"
    by (simp add: read_raw_def)
  then show ?thesis by (rule fetch_bytes_error)
next
  case (Some u)
  with assms show ?thesis by (simp add: read_raw_def Let_def split: if_splits)
qed

lemma ensure_auth_error:
  "ensure_auth k h = Inl e \<Longrightarrow>
     e = HTTPException 401 ''Missing bearer token'' \<or> e = HTTPException 403 ''Invalid token''"
  by (auto simp: ensure_auth_def Let_def split: if_splits)

subsection \<open>The handler, stage by stage\<close>

lemma translate_file_auth_fail:
  "ensure_auth (API_KEY w) (authorization r) = Inl a \<Longrightarrow>
     translate_file w r = Some (failed [] a)"
  by (simp add: translate_file_def)

lemma translate_file_no_source:
  "ensure_auth (API_KEY w) (authorization r) = Inr u \<Longrightarrow>
   \<not> truthy (file_url r) \<Longrightarrow> file r = None \<Longrightarrow>
     translate_file w r = Some (failed [] (HTTPException 400 ''Provide file_url or multipart file''))"
  by (simp add: translate_file_def)

lemma translate_file_unsupported:
  "ensure_auth (API_KEY w) (authorization r) = Inr u \<Longrightarrow>
   truthy (file_url r) \<or> file r \<noteq> None \<Longrightarrow>
   ext_from_name (resolve_filename w r) \<noteq> [] \<Longrightarrow>
   ext_from_name (resolve_filename w r) \<notin> ALLOWED_EXTS \<Longrightarrow>
     translate_file w r = Some (failed [] (HTTPException 415
        (''Unsupported file type: '' @ ext_from_name (resolve_filename w r))))"
  by (auto simp add: translate_file_def Let_def)

lemma translate_file_check_fail:
  "admitted w r \<Longrightarrow> check_file_url w r = (tr1, Inl a) \<Longrightarrow>
     translate_file w r = Some (failed tr1 a)"
  by (auto simp add: translate_file_def Let_def admitted_def)

lemma translate_file_read_fail:
  "admitted w r \<Longrightarrow> check_file_url w r = (tr1, Inr u) \<Longrightarrow>
   read_raw w r = (tr2, Inl a) \<Longrightarrow>
     translate_file w r = Some (failed (tr1 @ tr2) a)"
  by (auto simp add: translate_file_def Let_def admitted_def)

lemma translate_file_integrity_fail:
  "admitted w r \<Longrightarrow> check_file_url w r = (tr1, Inr u) \<Longrightarrow>
   read_raw w r = (tr2, Inr raw) \<Longrightarrow>
   truthy (integrity_sha256 r) \<Longrightarrow>
   sha256_hexdigest w raw \<noteq> lower (the (integrity_sha256 r)) \<Longrightarrow>
     translate_file w r = Some (failed (tr1 @ tr2) (HTTPException 400 ''Integrity hash mismatch''))"
  by (auto simp add: translate_file_def Let_def admitted_def)

lemma translate_file_async:
  "sourced w r tr raw \<Longrightarrow> return_mode r = ''async'' \<Longrightarrow>
     translate_file w r =
       Some \<lparr>events = tr,
             outcome = Inr (JSONResponse [(''job_id'', str_int (time_ms w)),
                                          (''status'', ''queued'')]),
             spawned = Task (do_work w (get_translator (process w)) r raw
                               (resolve_filename w r))\<rparr>"
  by (auto simp add: translate_file_def Let_def admitted_def sourced_def)

lemma translate_file_sync_never:
  "sourced w r tr raw \<Longrightarrow> return_mode r \<noteq> ''async'' \<Longrightarrow>
   do_work w (get_translator (process w)) r raw (resolve_filename w r) = None \<Longrightarrow>
     translate_file w r = None"
  by (auto simp add: translate_file_def Let_def admitted_def sourced_def)

lemma translate_file_sync_fail:
  "sourced w r tr raw \<Longrightarrow> return_mode r \<noteq> ''async'' \<Longrightarrow>
   do_work w (get_translator (process w)) r raw (resolve_filename w r) = Some (tr3, Inl e) \<Longrightarrow>
     translate_file w r = Some (failed (tr @ tr3) e)"
  by (auto simp add: translate_file_def Let_def admitted_def sourced_def)

lemma translate_file_sync_put:
  "sourced w r tr raw \<Longrightarrow> return_mode r \<noteq> ''async'' \<Longrightarrow>
   do_work w (get_translator (process w)) r raw (resolve_filename w r)
     = Some (tr3, Inr (out_bytes, out_mime, out_name)) \<Longrightarrow>
   truthy (output_url r) \<Longrightarrow>
     translate_file w r =
       Some \<lparr>events = tr @ tr3,
             outcome = Inr (JSONResponse
               [(''status'', ''succeeded''),
                (''output_url'', the (output_url r)),
                (''filename'', out_name),
                (''mime'', out_mime)]),
             spawned = NoTask\<rparr>"
  by (auto simp add: translate_file_def Let_def admitted_def sourced_def)

lemma translate_file_sync_stream:
  "sourced w r tr raw \<Longrightarrow> return_mode r \<noteq> ''async'' \<Longrightarrow>
   do_work w (get_translator (process w)) r raw (resolve_filename w r)
     = Some (tr3, Inr (out_bytes, out_mime, out_name)) \<Longrightarrow>
   \<not> truthy (output_url r) \<Longrightarrow>
     translate_file w r =
       Some \<lparr>events = tr @ tr3,
             outcome = Inr (StreamingResponse out_bytes out_mime
               [(''Content-Disposition'',
                 ''attachment; filename='' @ [CHR 0x22] @ out_name @ [CHR 0x22])]),
             spawned = NoTask\<rparr>"
  by (auto simp add: translate_file_def Let_def admitted_def sourced_def)

lemma translate_file_cases [consumes 1, case_names auth no_source unsupported check read
    integrity async sync_fail sync_put sync_stream]:
  assumes "translate_file w r = Some res"
  obtains a where "ensure_auth (API_KEY w) (authorization r) = Inl a" "res = failed [] a"
  | "\<not> truthy (file_url r)" "file r = None"
    "res = failed [] (HTTPException 400 ''Provide file_url or multipart file'')"
  | "ext_from_name (resolve_filename w r) \<noteq> []"
    "ext_from_name (resolve_filename w r) \<notin> ALLOWED_EXTS"
    "res = failed [] (HTTPException 415
             (''Unsupported file type: '' @ ext_from_name (resolve_filename w r)))"
  | tr1 a where "admitted w r" "check_file_url w r = (tr1, Inl a)" "res = failed tr1 a"
  | tr1 u tr2 a where "admitted w r" "check_file_url w r = (tr1, Inr u)"
      "read_raw w r = (tr2, Inl a)" "res = failed (tr1 @ tr2) a"
  | tr1 u tr2 raw where "admitted w r" "check_file_url w r = (tr1, Inr u)"
      "read_raw w r = (tr2, Inr raw)"
      "res = failed (tr1 @ tr2) (HTTPException 400 ''Integrity hash mismatch'')"
  | tr raw where "sourced w r tr raw" "return_mode r = ''async''"
      "res = \<lparr>events = tr,
              outcome = Inr (JSONResponse [(''job_id'', str_int (time_ms w)),
                                           (''status'', ''queued'')]),
              spawned = Task (do_work w (get_translator (process w)) r raw
                                (resolve_filename w r))\<rparr>"
  | tr raw tr3 e where "sourced w r tr raw" "return_mode r \<noteq> ''async''"
      "do_work w (get_translator (process w)) r raw (resolve_filename w r) = Some (tr3, Inl e)"
      "res = failed (tr @ tr3) e"
  | tr raw tr3 out_bytes out_mime out_name where
      "sourced w r tr raw" "return_mode r \<noteq> ''async''"
      "do_work w (get_translator (process w)) r raw (resolve_filename w r)
         = Some (tr3, Inr (out_bytes, out_mime, out_name))"
      "truthy (output_url r)"
      "res = \<lparr>events = tr @ tr3,
              outcome = Inr (JSONResponse
                [(''status'', ''succeeded''),
                 (''output_url'', the (output_url r)),
                 (''filename'', out_name),
                 (''mime'', out_mime)]),
              spawned = NoTask\<rparr>"
  | tr raw tr3 out_bytes out_mime out_name where
      "sourced w r tr raw" "return_mode r \<noteq> ''async''"
      "do_work w (get_translator (process w)) r raw (resolve_filename w r)
         = Some (tr3, Inr (out_bytes, out_mime, out_name))"
      "\<not> truthy (output_url r)"
      "res = \<lparr>events = tr @ tr3,
              outcome = Inr (StreamingResponse out_bytes out_mime
                [(''Content-Disposition'',
                  ''attachment; filename='' @ [CHR 0x22] @ out_name @ [CHR 0x22])]),
              spawned = NoTask\<rparr>"
proof (cases "ensure_auth (API_KEY w) (authorization r)")
  case (Inl a)
  with assms translate_file_auth_fail[OF Inl] that(1) show ?thesis by simp
next
  case auth: (Inr u0)
  show ?thesis
  proof (cases "\<not> truthy (file_url r) \<and> file r = None")
    case True
    with assms translate_file_no_source[OF auth] that(2) show ?thesis by simp
  next
    case src: False
    show ?thesis
    proof (cases "ext_from_name (resolve_filename w r) \<noteq> []
                  \<and> ext_from_name (resolve_filename w r) \<notin> ALLOWED_EXTS")
      case True
      with src assms translate_file_unsupported[OF auth] that(3) show ?thesis by auto
    next
      case extok: False
      with auth src have adm: "admitted w r" by (auto simp: admitted_def)
      obtain tr1 c where c: "check_file_url w r = (tr1, c)" by (cases "check_file_url w r")
      show ?thesis
      proof (cases c)
        case (Inl a)
        with c assms translate_file_check_fail[OF adm] that(4)[OF adm] show ?thesis by simp
      next
        case chk: (Inr u)
        obtain tr2 s where s: "read_raw w r = (tr2, s)" by (cases "read_raw w r")
        show ?thesis
        proof (cases s)
          case (Inl a)
          with c chk s have "translate_file w r = Some (failed (tr1 @ tr2) a)"
            using translate_file_read_fail[OF adm] by simp
          with assms c chk s Inl that(5)[OF adm] show ?thesis by simp
        next
          case raw: (Inr raw)
          show ?thesis
          proof (cases "truthy (integrity_sha256 r)
                        \<and> sha256_hexdigest w raw \<noteq> lower (the (integrity_sha256 r))")
            case True
            with c chk s raw have "translate_file w r
                = Some (failed (tr1 @ tr2) (HTTPException 400 ''Integrity hash mismatch''))"
              using translate_file_integrity_fail[OF adm] by simp
            with assms c chk s raw that(6)[OF adm] show ?thesis by simp
          next
            case integ: False
            with adm c chk s raw have so: "sourced w r (tr1 @ tr2) raw"
              by (auto simp: sourced_def)
            show ?thesis
            proof (cases "return_mode r = ''async''")
              case True
              with assms translate_file_async[OF so] that(7)[OF so] show ?thesis by simp
            next
              case sync: False
              show ?thesis
              proof (cases "do_work w (get_translator (process w)) r raw (resolve_filename w r)")
                case None
                with assms translate_file_sync_never[OF so sync] show ?thesis by simp
              next
                case (Some d)
                obtain tr3 dres where d: "d = (tr3, dres)" by (cases d)
                show ?thesis
                proof (cases dres)
                  case (Inl e)
                  with Some d assms translate_file_sync_fail[OF so sync]
                    that(8)[OF so sync] show ?thesis by simp
                next
                  case (Inr t)
                  obtain ob om on where t: "t = (ob, om, on)" by (cases t)
                  show ?thesis
                  proof (cases "truthy (output_url r)")
                    case True
                    with Some d Inr t assms translate_file_sync_put[OF so sync]
                      that(9)[OF so sync] show ?thesis by simp
                  next
                    case False
                    with Some d Inr t assms translate_file_sync_stream[OF so sync]
                      that(10)[OF so sync] show ?thesis by simp
                  qed
                qed
              qed
            qed
          qed
        qed
      qed
    qed
  qed
qed

lemma dev_translator: "get_translator (process dev_world) = PassThroughTranslator"
proof -
  have "lower ''false'' = ''false''" by code_simp
  then show ?thesis
    by (simp add: get_translator_def getenv_def dev_world_def dev_runtime_def)
qed

lemma dev_auth: "ensure_auth (API_KEY dev_world) (authorization (upload_request name data)) = Inr ()"
  by (simp add: ensure_auth_def dev_world_def upload_request_def truthy_def)

lemma outcome_failed [simp]: "outcome (failed tr e) = Inl e"
  by (simp add: failed_def)

lemma events_failed [simp]: "events (failed tr e) = tr"
  by (simp add: failed_def)

lemma spawned_failed [simp]: "spawned (failed tr e) = NoTask"
  by (simp add: failed_def)

subsection \<open>The extension gate\<close>

lemma do_work_extracted:
  "extract_text_from_bytes (fitz w) (docx w) raw name = Inr (text, e) \<Longrightarrow>
     do_work w t r raw name = translate_and_deliver w t r text name"
  by (simp add: do_work_def translate_and_deliver_def)

lemma answered_sourced:
  assumes "translate_file w r = Some res" and "outcome res = Inr resp"
  shows "\<exists>tr raw. sourced w r tr raw"
  using assms(1)
proof (cases rule: translate_file_cases)
  case (async tr raw)
  then show ?thesis by blast
next
  case (sync_put tr raw tr3 out_bytes out_mime out_name)
  then show ?thesis by blast
next
  case (sync_stream tr raw tr3 out_bytes out_mime out_name)
  then show ?thesis by blast
qed (use assms(2) in simp_all)

lemma translate_file_sync:
  assumes so: "sourced w r tr raw" and sync: "return_mode r \<noteq> ''async''"
  shows "translate_file w r =
       (case do_work w (get_translator (process w)) r raw (resolve_filename w r) of
          None \<Rightarrow> None
        | Some (tr3, Inl e) \<Rightarrow> Some (failed (tr @ tr3) e)
        | Some (tr3, Inr (out_bytes, out_mime, out_name)) \<Rightarrow>
            Some \<lparr>events = tr @ tr3,
                  outcome = Inr (if truthy (output_url r)
                                 then JSONResponse
                                        [(''status'', ''succeeded''),
                                         (''output_url'', the (output_url r)),
                                         (''filename'', out_name),
                                         (''mime'', out_mime)]
                                 else StreamingResponse out_bytes out_mime
                                        [(''Content-Disposition'',
                                          ''attachment; filename='' @ [CHR 0x22]
                                          @ out_name @ [CHR 0x22])]),
                  spawned = NoTask\<rparr>)"
proof (cases "do_work w (get_translator (process w)) r raw (resolve_filename w r)")
  case None
  then show ?thesis using translate_file_sync_never[OF so sync] by simp
next
  case (Some d)
  obtain tr3 dres where d: "d = (tr3, dres)" by (cases d)
  show ?thesis
  proof (cases dres)
    case (Inl e)
    with Some d show ?thesis using translate_file_sync_fail[OF so sync] by simp
  next
    case (Inr t)
    obtain ob om on where t: "t = (ob, om, on)" by (cases t)
    show ?thesis
    proof (cases "truthy (output_url r)")
      case True
      with Some d Inr t show ?thesis using translate_file_sync_put[OF so sync] by simp
    next
      case False
      with Some d Inr t show ?thesis using translate_file_sync_stream[OF so sync] by simp
    qed
  qed
qed

text \<open>
  Claim C9. The handler answers 415 only when the extension of the resolved file name is
  not empty and is outside the allow-list. A request whose resolved file name has no dot
  has the empty extension and is never answered with 415. Whenever such a request reaches
  the translation step with bytes \<open>raw\<close>, \<^verbatim>\<open>do_work\<close> extracts them as UTF-8 text,
  whether or not a parsing library is installed, and the answer of the handler is built
  from the translation and delivery of exactly that text: the background task in
  \<^verbatim>\<open>async\<close> mode, the response otherwise. Every successful answer passes through that
  step.
\<close>

theorem unsupported_type_needs_foreign_extension:
  "(\<forall>res msg. translate_file w r = Some res \<longrightarrow>
        outcome res = Inl (HTTPException 415 msg) \<longrightarrow>
        ext_from_name (resolve_filename w r) \<noteq> []
        \<and> ext_from_name (resolve_filename w r) \<notin> ALLOWED_EXTS)
   \<and> (CHR ''.'' \<notin> set (resolve_filename w r) \<longrightarrow>
        ext_from_name (resolve_filename w r) = []
        \<and> (\<forall>res msg. translate_file w r = Some res \<longrightarrow>
               outcome res \<noteq> Inl (HTTPException 415 msg))
        \<and> (\<forall>res resp. translate_file w r = Some res \<longrightarrow> outcome res = Inr resp \<longrightarrow>
               (\<exists>tr raw. sourced w r tr raw))
        \<and> (\<forall>tr raw. sourced w r tr raw \<longrightarrow>
             (\<exists>text.
                (case utf8_decode Strict raw of
                   Inr t \<Rightarrow> text = t
                 | Inl _ \<Rightarrow> utf8_decode Ignore raw = Inr text)
                \<and> extract_text_from_bytes (fitz w) (docx w) raw (resolve_filename w r)
                    = Inr (text, [])
                \<and> do_work w (get_translator (process w)) r raw (resolve_filename w r)
                    = translate_and_deliver w (get_translator (process w)) r text
                        (resolve_filename w r)
                \<and> (return_mode r = ''async'' \<longrightarrow>
                     translate_file w r =
                       Some \<lparr>events = tr,
                             outcome = Inr (JSONResponse [(''job_id'', str_int (time_ms w)),
                                                          (''status'', ''queued'')]),
                             spawned = Task (translate_and_deliver w
                                               (get_translator (process w)) r text
                                               (resolve_filename w r))\<rparr>)
                \<and> (return_mode r \<noteq> ''async'' \<longrightarrow>
                     translate_file w r =
                       (case translate_and_deliver w (get_translator (process w)) r text
                               (resolve_filename w r) of
                          None \<Rightarrow> None
                        | Some (tr3, Inl e) \<Rightarrow> Some (failed (tr @ tr3) e)
                        | Some (tr3, Inr (out_bytes, out_mime, out_name)) \<Rightarrow>
                            Some \<lparr>events = tr @ tr3,
                                  outcome = Inr (if truthy (output_url r)
                                                 then JSONResponse
                                                        [(''status'', ''succeeded''),
                                                         (''output_url'', the (output_url r)),
                                                         (''filename'', out_name),
                                                         (''mime'', out_mime)]
                                                 else StreamingResponse out_bytes out_mime
                                                        [(''Content-Disposition'',
                                                          ''attachment; filename=''
                                                          @ [CHR 0x22] @ out_name
                                                          @ [CHR 0x22])]),
                                  spawned = NoTask\<rparr>)))))"
proof -
  let ?ext = "ext_from_name (resolve_filename w r)"
  let ?name = "resolve_filename w r"
  let ?tl = "get_translator (process w)"
  have only: "?ext \<noteq> [] \<and> ?ext \<notin> ALLOWED_EXTS"
    if tf: "translate_file w r = Some res" and o: "outcome res = Inl (HTTPException 415 msg)"
    for res msg
    using tf
  proof (cases rule: translate_file_cases)
    case (auth a)
    with o show ?thesis by (auto dest!: ensure_auth_error)
  next
    case no_source
    with o show ?thesis by simp
  next
    case unsupported
    then show ?thesis by simp
  next
    case (check tr1 a)
    with o show ?thesis by (auto dest!: check_file_url_error)
  next
    case (read tr1 u tr2 a)
    with o show ?thesis by (auto dest!: read_raw_error)
  next
    case (integrity tr1 u tr2 raw)
    with o show ?thesis by simp
  next
    case (async tr raw)
    with o show ?thesis by simp
  next
    case (sync_fail tr raw tr3 e)
    with o show ?thesis by (auto dest!: do_work_error)
  next
    case (sync_put tr raw tr3 out_bytes out_mime out_name)
    with o show ?thesis by simp
  next
    case (sync_stream tr raw tr3 out_bytes out_mime out_name)
    with o show ?thesis by simp
  qed
  have nodot: "?ext = []
      \<and> (\<forall>res msg. translate_file w r = Some res \<longrightarrow>
             outcome res \<noteq> Inl (HTTPException 415 msg))
      \<and> (\<forall>res resp. translate_file w r = Some res \<longrightarrow> outcome res = Inr resp \<longrightarrow>
             (\<exists>tr raw. sourced w r tr raw))
      \<and> (\<forall>tr raw. sourced w r tr raw \<longrightarrow>
           (\<exists>text.
              (case utf8_decode Strict raw of
                 Inr t \<Rightarrow> text = t
               | Inl _ \<Rightarrow> utf8_decode Ignore raw = Inr text)
              \<and> extract_text_from_bytes (fitz w) (docx w) raw ?name = Inr (text, [])
              \<and> do_work w ?tl r raw ?name = translate_and_deliver w ?tl r text ?name
              \<and> (return_mode r = ''async'' \<longrightarrow>
                   translate_file w r =
                     Some \<lparr>events = tr,
                           outcome = Inr (JSONResponse [(''job_id'', str_int (time_ms w)),
                                                        (''status'', ''queued'')]),
                           spawned = Task (translate_and_deliver w ?tl r text ?name)\<rparr>)
              \<and> (return_mode r \<noteq> ''async'' \<longrightarrow>
                   translate_file w r =
                     (case translate_and_deliver w ?tl r text ?name of
                        None \<Rightarrow> None
                      | Some (tr3, Inl e) \<Rightarrow> Some (failed (tr @ tr3) e)
                      | Some (tr3, Inr (out_bytes, out_mime, out_name)) \<Rightarrow>
                          Some \<lparr>events = tr @ tr3,
                                outcome = Inr (if truthy (output_url r)
                                               then JSONResponse
                                                      [(''status'', ''succeeded''),
                                                       (''output_url'', the (output_url r)),
                                                       (''filename'', out_name),
                                                       (''mime'', out_mime)]
                                               else StreamingResponse out_bytes out_mime
                                                      [(''Content-Disposition'',
                                                        ''attachment; filename=''
                                                        @ [CHR 0x22] @ out_name
                                                        @ [CHR 0x22])]),
                                spawned = NoTask\<rparr>))))"
    if d: "CHR ''.'' \<notin> set (resolve_filename w r)"
  proof -
    have e: "?ext = []" using d by (rule ext_from_name_no_dot)
    have a: "\<not> (?ext = ''.pdf'' \<and> fitz w \<noteq> None)" "\<not> (?ext = ''.docx'' \<and> docx w \<noteq> None)"
      using e by simp_all
    have step: "\<exists>text.
              (case utf8_decode Strict raw of
                 Inr t \<Rightarrow> text = t
               | Inl _ \<Rightarrow> utf8_decode Ignore raw = Inr text)
              \<and> extract_text_from_bytes (fitz w) (docx w) raw ?name = Inr (text, [])
              \<and> do_work w ?tl r raw ?name = translate_and_deliver w ?tl r text ?name
              \<and> (return_mode r = ''async'' \<longrightarrow>
                   translate_file w r =
                     Some \<lparr>events = tr,
                           outcome = Inr (JSONResponse [(''job_id'', str_int (time_ms w)),
                                                        (''status'', ''queued'')]),
                           spawned = Task (translate_and_deliver w ?tl r text ?name)\<rparr>)
              \<and> (return_mode r \<noteq> ''async'' \<longrightarrow>
                   translate_file w r =
                     (case translate_and_deliver w ?tl r text ?name of
                        None \<Rightarrow> None
                      | Some (tr3, Inl e) \<Rightarrow> Some (failed (tr @ tr3) e)
                      | Some (tr3, Inr (out_bytes, out_mime, out_name)) \<Rightarrow>
                          Some \<lparr>events = tr @ tr3,
                                outcome = Inr (if truthy (output_url r)
                                               then JSONResponse
                                                      [(''status'', ''succeeded''),
                                                       (''output_url'', the (output_url r)),
                                                       (''filename'', out_name),
                                                       (''mime'', out_mime)]
                                               else StreamingResponse out_bytes out_mime
                                                      [(''Content-Disposition'',
                                                        ''attachment; filename=''
                                                        @ [CHR 0x22] @ out_name
                                                        @ [CHR 0x22])]),
                                spawned = NoTask\<rparr>))"
      if so: "sourced w r tr raw" for tr raw
    proof -
      obtain dtext where
        x: "extract_text_from_bytes (fitz w) (docx w) raw ?name = Inr (dtext, [])"
        and dec: "(case utf8_decode Strict raw of
                     Inr t \<Rightarrow> dtext = t
                   | Inl _ \<Rightarrow> utf8_decode Ignore raw = Inr dtext)"
        using extract_fallback[OF a, of raw] e by auto
      have dw: "do_work w ?tl r raw ?name = translate_and_deliver w ?tl r dtext ?name"
        using x by (rule do_work_extracted)
      have asy: "translate_file w r =
                  Some \<lparr>events = tr,
                        outcome = Inr (JSONResponse [(''job_id'', str_int (time_ms w)),
                                                     (''status'', ''queued'')]),
                        spawned = Task (translate_and_deliver w ?tl r dtext ?name)\<rparr>"
        if "return_mode r = ''async''"
        using translate_file_async[OF so that] dw by simp
      have sy: "translate_file w r =
                  (case translate_and_deliver w ?tl r dtext ?name of
                     None \<Rightarrow> None
                   | Some (tr3, Inl e) \<Rightarrow> Some (failed (tr @ tr3) e)
                   | Some (tr3, Inr (out_bytes, out_mime, out_name)) \<Rightarrow>
                       Some \<lparr>events = tr @ tr3,
                             outcome = Inr (if truthy (output_url r)
                                            then JSONResponse
                                                   [(''status'', ''succeeded''),
                                                    (''output_url'', the (output_url r)),
                                                    (''filename'', out_name),
                                                    (''mime'', out_mime)]
                                            else StreamingResponse out_bytes out_mime
                                                   [(''Content-Disposition'',
                                                     ''attachment; filename=''
                                                     @ [CHR 0x22] @ out_name
                                                     @ [CHR 0x22])]),
                             spawned = NoTask\<rparr>)"
        if "return_mode r \<noteq> ''async''"
        using translate_file_sync[OF so that] unfolding dw .
      show ?thesis using x dec dw asy sy by blast
    qed
    have ans: "\<exists>tr raw. sourced w r tr raw"
      if "translate_file w r = Some res" "outcome res = Inr resp" for res resp
      using that by (rule answered_sourced)
    show ?thesis using e only step ans by blast
  qed
  show ?thesis using only nodot by blast
qed

theorem unsupported_type_needs_foreign_extension_witness:
  "CHR ''.'' \<notin> set (resolve_filename dev_world (upload_request ''README'' [0x68, 0xFF, 0x69]))
   \<and> sourced dev_world (upload_request ''README'' [0x68, 0xFF, 0x69]) [] [0x68, 0xFF, 0x69]
   \<and> translate_file dev_world (upload_request ''README'' [0x68, 0xFF, 0x69]) =
       Some \<lparr>events = [],
             outcome = Inr (StreamingResponse [0x68, 0x69] ''text/markdown''
               [(''Content-Disposition'',
                 ''attachment; filename='' @ [CHR 0x22] @ ''README.translated.md''
                 @ [CHR 0x22])]),
             spawned = NoTask\<rparr>"
proof -
  let ?req = "upload_request ''README'' [0x68, 0xFF, 0x69]"
  let ?raw = "[0x68, 0xFF, 0x69] :: bytes"
  have d: "CHR ''.'' \<notin> set (resolve_filename dev_world ?req)" by code_simp
  have au: "ensure_auth (API_KEY dev_world) (authorization ?req) = Inr ()" by code_simp
  have ex: "ext_from_name (resolve_filename dev_world ?req) = []"
    using d by (rule ext_from_name_no_dot)
  have chk: "check_file_url dev_world ?req = ([], Inr ())" by code_simp
  have rd: "read_raw dev_world ?req = ([], Inr ?raw)" by code_simp
  have so: "sourced dev_world ?req [] ?raw"
    unfolding sourced_def admitted_def au ex chk rd
    by (simp add: upload_request_def truthy_def)
  have st: "utf8_decode Strict ?raw = Inl UnicodeDecodeError" by (simp add: utf8_step_def)
  have ig: "utf8_decode Ignore ?raw = Inr [0x68, 0x69]" by (simp add: utf8_step_def)
  have sync: "return_mode ?req \<noteq> ''async''" by (simp add: upload_request_def)
  have url: "\<not> truthy (output_url ?req)" by (simp add: upload_request_def truthy_def)
  have tad: "translate_and_deliver dev_world (get_translator (process dev_world)) ?req
               [0x68, 0x69] (resolve_filename dev_world ?req)
             = Some ([], Inr ([0x68, 0x69], ''text/markdown'', ''README.translated.md''))"
    by code_simp
  from unsupported_type_needs_foreign_extension[of dev_world ?req] d so
  obtain dtext where
    dec: "(case utf8_decode Strict ?raw of
             Inr t \<Rightarrow> dtext = t
           | Inl _ \<Rightarrow> utf8_decode Ignore ?raw = Inr dtext)"
    and tf: "return_mode ?req \<noteq> ''async'' \<longrightarrow>
       translate_file dev_world ?req =
         (case translate_and_deliver dev_world (get_translator (process dev_world)) ?req dtext
                 (resolve_filename dev_world ?req) of
            None \<Rightarrow> None
          | Some (tr3, Inl e) \<Rightarrow> Some (failed ([] @ tr3) e)
          | Some (tr3, Inr (out_bytes, out_mime, out_name)) \<Rightarrow>
              Some \<lparr>events = [] @ tr3,
                    outcome = Inr (if truthy (output_url ?req)
                                   then JSONResponse
                                          [(''status'', ''succeeded''),
                                           (''output_url'', the (output_url ?req)),
                                           (''filename'', out_name),
                                           (''mime'', out_mime)]
                                   else StreamingResponse out_bytes out_mime
                                          [(''Content-Disposition'',
                                            ''attachment; filename=''
                                            @ [CHR 0x22] @ out_name
                                            @ [CHR 0x22])]),
                    spawned = NoTask\<rparr>)"
    by blast
  from dec have dt: "dtext = [0x68, 0x69]" unfolding st ig by simp
  from tf sync have "translate_file dev_world ?req =
       Some \<lparr>events = [],
             outcome = Inr (StreamingResponse [0x68, 0x69] ''text/markdown''
               [(''Content-Disposition'',
                 ''attachment; filename='' @ [CHR 0x22] @ ''README.translated.md''
                 @ [CHR 0x22])]),
             spawned = NoTask\<rparr>"
    unfolding dt tad using url by simp
  with d so show ?thesis by simp
qed

subsection \<open>Where the bytes come from\<close>

text \<open>
  Claim C5, as amended. An authorized request that supplies neither an inline file nor a
  \<^verbatim>\<open>file_url\<close> is rejected with 400. A request that supplies at least one of them, and
  so also a request that supplies both, is never rejected on that ground.
\<close>

theorem source_required_not_exclusive:
  assumes "ensure_auth (API_KEY w) (authorization r) = Inr ()"
  shows "(\<not> truthy (file_url r) \<and> file r = None \<longrightarrow>
            translate_file w r
              = Some (failed [] (HTTPException 400 ''Provide file_url or multipart file'')))
       \<and> (truthy (file_url r) \<or> file r \<noteq> None \<longrightarrow>
            (\<forall>res. translate_file w r = Some res \<longrightarrow>
               outcome res \<noteq> Inl (HTTPException 400 ''Provide file_url or multipart file'')))"
proof -
  have never: "outcome res \<noteq> Inl (HTTPException 400 ''Provide file_url or multipart file'')"
    if src: "truthy (file_url r) \<or> file r \<noteq> None" and tf: "translate_file w r = Some res"
    for res
    using tf
  proof (cases rule: translate_file_cases)
    case (auth a)
    with assms show ?thesis by simp
  next
    case no_source
    with src show ?thesis by simp
  next
    case unsupported
    then show ?thesis by simp
  next
    case (check tr1 a)
    then show ?thesis by (auto dest!: check_file_url_error)
  next
    case (read tr1 u tr2 a)
    then show ?thesis by (auto dest!: read_raw_error)
  next
    case (integrity tr1 u tr2 raw)
    then show ?thesis by simp
  next
    case (async tr raw)
    then show ?thesis by simp
  next
    case (sync_fail tr raw tr3 e)
    then show ?thesis by (auto dest!: do_work_error)
  next
    case (sync_put tr raw tr3 out_bytes out_mime out_name)
    then show ?thesis by simp
  next
    case (sync_stream tr raw tr3 out_bytes out_mime out_name)
    then show ?thesis by simp
  qed
  show ?thesis using translate_file_no_source[OF assms] never by blast
qed

theorem source_required_not_exclusive_witness:
  "translate_file dev_world
     ((upload_request ''hello.txt'' [0x48, 0x69])\<lparr>file := None\<rparr>)
     = Some (failed [] (HTTPException 400 ''Provide file_url or multipart file''))
   \<and> (\<exists>res. translate_file dev_world
                ((upload_request ''hello.txt'' [0x48, 0x69])
                   \<lparr>file_url := Some ''https://bucket.s3.amazonaws.com/docs/hello.txt''\<rparr>)
              = Some res
            \<and> outcome res \<noteq> Inl (HTTPException 400 ''Provide file_url or multipart file''))"
proof -
  let ?none = "(upload_request ''hello.txt'' [0x48, 0x69])\<lparr>file := None\<rparr>"
  let ?both = "(upload_request ''hello.txt'' [0x48, 0x69])
                 \<lparr>file_url := Some ''https://bucket.s3.amazonaws.com/docs/hello.txt''\<rparr>"
  have a1: "ensure_auth (API_KEY dev_world) (authorization ?none) = Inr ()" by code_simp
  have a2: "ensure_auth (API_KEY dev_world) (authorization ?both) = Inr ()" by code_simp
  have n: "\<not> truthy (file_url ?none) \<and> file ?none = None" by code_simp
  have b: "truthy (file_url ?both) \<or> file ?both \<noteq> None" by code_simp
  have t: "translate_file dev_world ?both
             = Some \<lparr>events = [HEAD ''https://bucket.s3.amazonaws.com/docs/hello.txt''],
                     outcome = Inr (StreamingResponse [0x48, 0x69] ''text/markdown''
                       [(''Content-Disposition'',
                         ''attachment; filename='' @ [CHR 0x22] @ ''hello.txt.translated.md''
                         @ [CHR 0x22])]),
                     spawned = NoTask\<rparr>"
    by code_simp
  from source_required_not_exclusive[OF a1] n source_required_not_exclusive[OF a2] b t
  show ?thesis by blast
qed

text \<open>
  The claim as stated fails: a request with both an upload and a \<^verbatim>\<open>file_url\<close> is
  served, from the upload.
\<close>

theorem source_exclusive_counterexample:
  "translate_file dev_world
     ((upload_request ''hello.txt'' [0x48, 0x69])
        \<lparr>file_url := Some ''https://bucket.s3.amazonaws.com/docs/other.txt''\<rparr>)
     = Some \<lparr>events = [HEAD ''https://bucket.s3.amazonaws.com/docs/other.txt''],
             outcome = Inr (StreamingResponse [0x48, 0x69] ''text/markdown''
               [(''Content-Disposition'',
                 ''attachment; filename='' @ [CHR 0x22] @ ''hello.txt.translated.md''
                 @ [CHR 0x22])]),
             spawned = NoTask\<rparr>"
  by code_simp

subsection \<open>The end-to-end upload\<close>

lemma hello_decode:
  "utf8_decode Strict [0x48, 0x65, 0x6C, 0x6C, 0x6F, 0x20, 0x77, 0x6F, 0x72, 0x6C, 0x64]
     = Inr [0x48, 0x65, 0x6C, 0x6C, 0x6F, 0x20, 0x77, 0x6F, 0x72, 0x6C, 0x64]"
  by code_simp

lemma hello_encode:
  "utf8_encode [0x48, 0x65, 0x6C, 0x6C, 0x6F, 0x20, 0x77, 0x6F, 0x72, 0x6C, 0x64]
     = Inr [0x48, 0x65, 0x6C, 0x6C, 0x6F, 0x20, 0x77, 0x6F, 0x72, 0x6C, 0x64]"
  by code_simp

lemma hello_ext: "ext_from_name ''hello.txt'' = ''.txt''"
  by code_simp

text \<open>
  Claim C6, as amended. Uploading \<^verbatim>\<open>hello.txt\<close> with the content \<^verbatim>\<open>Hello world\<close>,
  \<^verbatim>\<open>target_lang="vi"\<close>, \<^verbatim>\<open>return_mode="sync"\<close>, the pass-through backend, no
  \<^verbatim>\<open>output_url\<close> and no \<^verbatim>\<open>preserve_format\<close> field, so that its default
  \<^verbatim>\<open>"markdown"\<close> applies, yields a 200 response whose body is exactly the bytes
  \<^verbatim>\<open>Hello world\<close>, with the content type \<^verbatim>\<open>text/markdown\<close> and the attachment
  file name \<^verbatim>\<open>hello.txt.translated.md\<close>. This holds for every configuration whose
  byte ceiling admits the eleven bytes, for every source language field, and also when
  the \<^verbatim>\<open>preserve_format\<close> field is sent empty.
\<close>

theorem hello_upload_response:
  assumes backend: "get_translator (process w) = PassThroughTranslator"
      and ceiling: "11 \<le> MAX_BYTES w"
      and fmt: "fmt = None \<or> fmt = Some []"
  shows "\<exists>resp.
           post_translate_file w
             \<lparr>authorization_header = Some (''Bearer '' @ API_KEY w),
              file_url_field = None,
              output_url_field = None,
              file_part = Some \<lparr>upload_filename = Some ''hello.txt'',
                                 upload_content = [0x48, 0x65, 0x6C, 0x6C, 0x6F, 0x20,
                                                   0x77, 0x6F, 0x72, 0x6C, 0x64]\<rparr>,
              target_lang_field = Some ''vi'',
              source_lang_field = src,
              preserve_format_field = fmt,
              return_mode_field = Some ''sync'',
              integrity_sha256_field = None\<rparr>
             = Some \<lparr>events = [], outcome = Inr resp, spawned = NoTask\<rparr>
           \<and> resp = StreamingResponse
                      [0x48, 0x65, 0x6C, 0x6C, 0x6F, 0x20, 0x77, 0x6F, 0x72, 0x6C, 0x64]
                      ''text/markdown''
                      [(''Content-Disposition'',
                        ''attachment; filename='' @ [CHR 0x22]
                        @ ''hello.txt.translated.md'' @ [CHR 0x22])]
           \<and> status_code resp = 200"
proof -
  let ?hello = "[0x48, 0x65, 0x6C, 0x6C, 0x6F, 0x20, 0x77, 0x6F, 0x72, 0x6C, 0x64] :: bytes"
  define r where "r = \<lparr>authorization = Some (''Bearer '' @ API_KEY w),
                        file_url = None,
                        output_url = None,
                        file = Some \<lparr>upload_filename = Some ''hello.txt'',
                                      upload_content = ?hello\<rparr>,
                        target_lang = ''vi'',
                        source_lang = form_value src,
                        preserve_format = ''markdown'',
                        return_mode = ''sync'',
                        integrity_sha256 = None\<rparr>"
  have name: "resolve_filename w r = ''hello.txt''"
    by (simp add: resolve_filename_def r_def truthy_def)
  have au: "ensure_auth (API_KEY w) (authorization r) = Inr ()"
    by (simp add: r_def ensure_auth_def truthy_def)
  have adm: "admitted w r"
    unfolding admitted_def name hello_ext au
    by (simp add: r_def ALLOWED_EXTS_def)
  have chk: "check_file_url w r = ([], Inr ())"
    by (simp add: check_file_url_def r_def truthy_def)
  have raw: "read_raw w r = ([], Inr ?hello)"
    using ceiling by (simp add: read_raw_def r_def)
  have so: "sourced w r [] ?hello"
    unfolding sourced_def using adm chk raw by (simp add: r_def truthy_def)
  have sync: "return_mode r \<noteq> ''async''" by (simp add: r_def)
  have ex: "extract_text_from_bytes (fitz w) (docx w) ?hello ''hello.txt''
              = Inr ([0x48, 0x65, 0x6C, 0x6C, 0x6F, 0x20, 0x77, 0x6F, 0x72, 0x6C, 0x64], ''.txt'')"
    unfolding extract_text_from_bytes_def hello_ext hello_decode by simp
  have dw: "do_work w (get_translator (process w)) r ?hello (resolve_filename w r)
              = Some ([], Inr (?hello, ''text/markdown'', ''hello.txt.translated.md''))"
    unfolding do_work_def name backend
    by (simp add: ex r_def choose_output_ext_and_mime_def PassThroughTranslator_translate_def
                  hello_encode truthy_def
             del: utf8_encode.simps)
  have url: "\<not> truthy (output_url r)" by (simp add: r_def truthy_def)
  have tf: "translate_file w r
          = Some \<lparr>events = [] @ [],
                  outcome = Inr (StreamingResponse ?hello ''text/markdown''
                    [(''Content-Disposition'',
                      ''attachment; filename='' @ [CHR 0x22]
                      @ ''hello.txt.translated.md'' @ [CHR 0x22])]),
                  spawned = NoTask\<rparr>"
    by (rule translate_file_sync_stream[OF so sync dw url])
  have bf: "bind_form
           \<lparr>authorization_header = Some (''Bearer '' @ API_KEY w),
            file_url_field = None,
            output_url_field = None,
            file_part = Some \<lparr>upload_filename = Some ''hello.txt'',
                               upload_content = ?hello\<rparr>,
            target_lang_field = Some ''vi'',
            source_lang_field = src,
            preserve_format_field = fmt,
            return_mode_field = Some ''sync'',
            integrity_sha256_field = None\<rparr> = Inr r"
    using fmt by (auto simp: bind_form_def form_value_def r_def)
  show ?thesis
    using tf bf by (simp add: post_translate_file_def status_code_def)
qed

theorem hello_upload_response_witness:
  "post_translate_file dev_world
     \<lparr>authorization_header = Some (''Bearer '' @ API_KEY dev_world),
      file_url_field = None,
      output_url_field = None,
      file_part = Some \<lparr>upload_filename = Some ''hello.txt'',
                         upload_content = [0x48, 0x65, 0x6C, 0x6C, 0x6F, 0x20,
                                           0x77, 0x6F, 0x72, 0x6C, 0x64]\<rparr>,
      target_lang_field = Some ''vi'',
      source_lang_field = None,
      preserve_format_field = None,
      return_mode_field = Some ''sync'',
      integrity_sha256_field = None\<rparr>
   = Some \<lparr>events = [],
           outcome = Inr (StreamingResponse
             [0x48, 0x65, 0x6C, 0x6C, 0x6F, 0x20, 0x77, 0x6F, 0x72, 0x6C, 0x64]
             ''text/markdown''
             [(''Content-Disposition'',
               ''attachment; filename='' @ [CHR 0x22] @ ''hello.txt.translated.md''
               @ [CHR 0x22])]),
           spawned = NoTask\<rparr>"
proof -
  have c: "11 \<le> MAX_BYTES dev_world" by (simp add: dev_world_def)
  have f: "(None :: string option) = None \<or> (None :: string option) = Some []"
    by simp
  from hello_upload_response[OF dev_translator c f, of None] show ?thesis by simp
qed

text \<open>
  The claim as stated fails: with no \<^verbatim>\<open>preserve_format\<close> field the response is
  Markdown, not plain text.
\<close>

theorem hello_upload_plain_counterexample:
  "post_translate_file dev_world
     \<lparr>authorization_header = Some ''Bearer devkey'',
      file_url_field = None,
      output_url_field = None,
      file_part = Some \<lparr>upload_filename = Some ''hello.txt'',
                         upload_content = [0x48, 0x65, 0x6C, 0x6C, 0x6F, 0x20,
                                           0x77, 0x6F, 0x72, 0x6C, 0x64]\<rparr>,
      target_lang_field = Some ''vi'',
      source_lang_field = None,
      preserve_format_field = None,
      return_mode_field = Some ''sync'',
      integrity_sha256_field = None\<rparr>
   \<noteq> Some \<lparr>events = [],
           outcome = Inr (StreamingResponse
             [0x48, 0x65, 0x6C, 0x6C, 0x6F, 0x20, 0x77, 0x6F, 0x72, 0x6C, 0x64]
             ''text/plain''
             [(''Content-Disposition'',
               ''attachment; filename='' @ [CHR 0x22] @ ''hello.txt.translated.txt''
               @ [CHR 0x22])]),
           spawned = NoTask\<rparr>"
  by code_simp

subsection \<open>An upload together with a URL\<close>

lemma put_bytes_events:
  "put_bytes w url data ct = (tr, res) \<Longrightarrow> tr = [] \<or> tr = [PUT url data ct]"
  by (auto simp: put_bytes_def Let_def split: if_splits)

lemma do_work_events:
  assumes "do_work w tr r raw name = Some (t, res)"
  shows "\<forall>x. GET x \<notin> set t \<and> (\<forall>n. READ n \<notin> set t) \<and> HEAD x \<notin> set t"
proof -
  have "t = [] \<or> (\<exists>u d c. t = [PUT u d c])"
    using assms
    by (auto simp: do_work_def Let_def
             split: sum.splits option.splits prod.splits if_splits
             dest: put_bytes_events)
  then show ?thesis by auto
qed

lemma read_raw_upload:
  "file r = Some u \<Longrightarrow>
     read_raw w r = ([], if MAX_BYTES w < int (length (upload_content u))
                         then Inl (HTTPException 413 ''File too large'')
                         else Inr (upload_content u))"
  by (simp add: read_raw_def Let_def)

lemma check_file_url_no_get:
  "check_file_url w r = (tr, res) \<Longrightarrow> (\<forall>x. GET x \<notin> set tr) \<and> (\<forall>n. READ n \<notin> set tr)"
  by (auto dest!: check_file_url_events)

lemma check_file_url_rejects_host:
  "truthy (file_url r) \<Longrightarrow> \<not> host_allowed w (the (file_url r)) \<Longrightarrow>
     check_file_url w r = ([], Inl (HTTPException 400 ''URL host not allowed''))"
  by (simp add: check_file_url_def)

lemma check_file_url_rejects_size:
  "truthy (file_url r) \<Longrightarrow> host_allowed w (the (file_url r)) \<Longrightarrow>
   head_info w (the (file_url r)) = (tr, Inr (Some k, et, ct)) \<Longrightarrow>
   k \<noteq> 0 \<Longrightarrow> MAX_BYTES w < k \<Longrightarrow>
     check_file_url w r = ([HEAD (the (file_url r))], Inl (HTTPException 413 ''File too large''))"
  by (frule head_info_events) (simp add: check_file_url_def)

text \<open>
  Claim C10, as amended. For every request that supplies both an inline file and a
  \<^verbatim>\<open>file_url\<close>: the resolved file name is the upload's file name when the upload has a
  non-empty one, and the last segment of the URL's path otherwise; the bytes that reach
  the translation step are the upload's, and no GET is issued, by the handler or by the
  task it spawns; yet the \<^verbatim>\<open>file_url\<close> is still checked against the host allow-list
  and its HEAD-declared size against the byte ceiling, and either check rejects the
  request, with 400 and with 413.
\<close>

theorem upload_with_url:
  assumes up: "file r = Some u" and url: "truthy (file_url r)"
  shows "resolve_filename w r
           = (if truthy (upload_filename u) then the (upload_filename u)
              else rev (takeWhile (\<lambda>c. c \<noteq> CHR ''/'')
                         (rev (urlparse_path w (the (file_url r))))))
       \<and> (\<forall>tr raw. sourced w r tr raw \<longrightarrow>
              raw = upload_content u \<and> (tr = [] \<or> tr = [HEAD (the (file_url r))]))
       \<and> (\<forall>res. translate_file w r = Some res \<longrightarrow>
              (\<forall>x. GET x \<notin> set (events res)) \<and> (\<forall>n. READ n \<notin> set (events res))
              \<and> (\<forall>t x. spawned res = Task (Some (t, x)) \<longrightarrow> (\<forall>y. GET y \<notin> set t)))
       \<and> (\<forall>res resp. translate_file w r = Some res \<longrightarrow> outcome res = Inr resp \<longrightarrow>
              (\<exists>tr. sourced w r tr (upload_content u)))
       \<and> (\<forall>tr. sourced w r tr (upload_content u) \<longrightarrow> return_mode r = ''async'' \<longrightarrow>
              translate_file w r =
                Some \<lparr>events = tr,
                      outcome = Inr (JSONResponse [(''job_id'', str_int (time_ms w)),
                                                   (''status'', ''queued'')]),
                      spawned = Task (do_work w (get_translator (process w)) r
                                        (upload_content u) (resolve_filename w r))\<rparr>)
       \<and> (\<forall>tr. sourced w r tr (upload_content u) \<longrightarrow> return_mode r \<noteq> ''async'' \<longrightarrow>
              translate_file w r =
                (case do_work w (get_translator (process w)) r (upload_content u)
                        (resolve_filename w r) of
                   None \<Rightarrow> None
                 | Some (tr3, Inl e) \<Rightarrow> Some (failed (tr @ tr3) e)
                 | Some (tr3, Inr (out_bytes, out_mime, out_name)) \<Rightarrow>
                     Some \<lparr>events = tr @ tr3,
                           outcome = Inr (if truthy (output_url r)
                                          then JSONResponse
                                                 [(''status'', ''succeeded''),
                                                  (''output_url'', the (output_url r)),
                                                  (''filename'', out_name),
                                                  (''mime'', out_mime)]
                                          else StreamingResponse out_bytes out_mime
                                                 [(''Content-Disposition'',
                                                   ''attachment; filename='' @ [CHR 0x22]
                                                   @ out_name @ [CHR 0x22])]),
                           spawned = NoTask\<rparr>))
       \<and> (admitted w r \<longrightarrow> \<not> host_allowed w (the (file_url r)) \<longrightarrow>
              translate_file w r
                = Some (failed [] (HTTPException 400 ''URL host not allowed'')))
       \<and> (admitted w r \<longrightarrow> host_allowed w (the (file_url r)) \<longrightarrow>
              (\<forall>tr k et ct. head_info w (the (file_url r)) = (tr, Inr (Some k, et, ct)) \<longrightarrow>
                 k \<noteq> 0 \<longrightarrow> MAX_BYTES w < k \<longrightarrow>
                 translate_file w r
                   = Some (failed [HEAD (the (file_url r))]
                             (HTTPException 413 ''File too large''))))"
proof -
  let ?url = "the (file_url r)"
  have name: "resolve_filename w r
           = (if truthy (upload_filename u) then the (upload_filename u)
              else rev (takeWhile (\<lambda>c. c \<noteq> CHR ''/'') (rev (urlparse_path w ?url))))"
    using up url by (simp add: resolve_filename_def)
  have rr: "read_raw w r = ([], if MAX_BYTES w < int (length (upload_content u))
                                then Inl (HTTPException 413 ''File too large'')
                                else Inr (upload_content u))"
    using up by (rule read_raw_upload)
  have src: "raw = upload_content u \<and> (tr = [] \<or> tr = [HEAD ?url])"
    if so: "sourced w r tr raw" for tr raw
  proof -
    from so obtain tr1 tr2 v where
      c: "check_file_url w r = (tr1, Inr v)" and rd: "read_raw w r = (tr2, Inr raw)"
      and tr: "tr = tr1 @ tr2"
      by (auto simp: sourced_def)
    from rd rr have "tr2 = []" "raw = upload_content u" by (auto split: if_splits)
    moreover from c have "tr1 = [] \<or> tr1 = [HEAD ?url]" by (rule check_file_url_events)
    ultimately show ?thesis using tr by auto
  qed
  have pre: "(\<forall>x. GET x \<notin> set (tr1 @ tr2)) \<and> (\<forall>n. READ n \<notin> set (tr1 @ tr2))"
    if "check_file_url w r = (tr1, c)" "read_raw w r = (tr2, d)" for tr1 tr2 c d
  proof -
    from that(2) rr have "tr2 = []" by simp
    with check_file_url_no_get[OF that(1)] show ?thesis by simp
  qed
  have so_ev: "(\<forall>x. GET x \<notin> set tr) \<and> (\<forall>n. READ n \<notin> set tr)"
    if "sourced w r tr raw" for tr raw
    using src[OF that] by auto
  have noget: "(\<forall>x. GET x \<notin> set (events res)) \<and> (\<forall>n. READ n \<notin> set (events res))
              \<and> (\<forall>t x. spawned res = Task (Some (t, x)) \<longrightarrow> (\<forall>y. GET y \<notin> set t))"
    if tf: "translate_file w r = Some res" for res
    using tf
  proof (cases rule: translate_file_cases)
    case (check tr1 a)
    then show ?thesis using check_file_url_no_get by simp
  next
    case (read tr1 v tr2 a)
    then show ?thesis using pre by simp
  next
    case (integrity tr1 v tr2 raw)
    then show ?thesis using pre by simp
  next
    case (async tr raw)
    then show ?thesis using so_ev[OF async(1)] do_work_events by fastforce
  next
    case (sync_fail tr raw tr3 e)
    then show ?thesis using so_ev[OF sync_fail(1)] do_work_events[OF sync_fail(3)] by simp
  next
    case (sync_put tr raw tr3 out_bytes out_mime out_name)
    then show ?thesis using so_ev[OF sync_put(1)] do_work_events[OF sync_put(3)] by simp
  next
    case (sync_stream tr raw tr3 out_bytes out_mime out_name)
    then show ?thesis using so_ev[OF sync_stream(1)] do_work_events[OF sync_stream(3)] by simp
  qed simp_all
  have ans: "\<exists>tr. sourced w r tr (upload_content u)"
    if "translate_file w r = Some res" "outcome res = Inr resp" for res resp
    using answered_sourced[OF that] src by blast
  have host: "translate_file w r = Some (failed [] (HTTPException 400 ''URL host not allowed''))"
    if "admitted w r" "\<not> host_allowed w ?url"
    using translate_file_check_fail[OF that(1) check_file_url_rejects_host[OF url that(2)]] .
  have big: "translate_file w r
               = Some (failed [HEAD ?url] (HTTPException 413 ''File too large''))"
    if "admitted w r" "host_allowed w ?url"
       "head_info w ?url = (tr, Inr (Some k, et, ct))" "k \<noteq> 0" "MAX_BYTES w < k"
    for tr k et ct
    using translate_file_check_fail
            [OF that(1) check_file_url_rejects_size[OF url that(2) that(3) that(4) that(5)]] .
  show ?thesis
    using name src noget ans translate_file_async translate_file_sync host big
    by (intro conjI allI impI) blast+
qed

theorem upload_with_url_witness:
  "resolve_filename dev_world
     ((upload_request ''hello.txt'' [0x48, 0x69])
        \<lparr>file_url := Some ''https://bucket.s3.amazonaws.com/docs/other.txt''\<rparr>)
     = ''hello.txt''
   \<and> translate_file dev_world
       ((upload_request ''hello.txt'' [0x48, 0x69])
          \<lparr>file_url := Some ''https://bucket.s3.amazonaws.com/docs/other.txt''\<rparr>)
       = Some \<lparr>events = [HEAD ''https://bucket.s3.amazonaws.com/docs/other.txt''],
               outcome = Inr (StreamingResponse [0x48, 0x69] ''text/markdown''
                 [(''Content-Disposition'',
                   ''attachment; filename='' @ [CHR 0x22] @ ''hello.txt.translated.md''
                   @ [CHR 0x22])]),
               spawned = NoTask\<rparr>
   \<and> translate_file (dev_world\<lparr>ALLOWED_URL_HOSTS := []\<rparr>)
       ((upload_request ''hello.txt'' [0x48, 0x69])
          \<lparr>file_url := Some ''https://bucket.s3.amazonaws.com/docs/other.txt''\<rparr>)
       = Some (failed [] (HTTPException 400 ''URL host not allowed''))
   \<and> translate_file
       (dev_world\<lparr>http_head :=
          (\<lambda>url. \<lparr>head_status = 200,
                   head_headers = [''Content-Length'' \<mapsto> ''104857600'']\<rparr>)\<rparr>)
       ((upload_request ''hello.txt'' [0x48, 0x69])
          \<lparr>file_url := Some ''https://bucket.s3.amazonaws.com/docs/other.txt''\<rparr>)
       = Some (failed [HEAD ''https://bucket.s3.amazonaws.com/docs/other.txt'']
                 (HTTPException 413 ''File too large''))"
proof -
  let ?url = "''https://bucket.s3.amazonaws.com/docs/other.txt''"
  let ?u = "\<lparr>upload_filename = Some ''hello.txt'', upload_content = [0x48, 0x69]\<rparr>"
  let ?r = "(upload_request ''hello.txt'' [0x48, 0x69])\<lparr>file_url := Some ?url\<rparr>"
  let ?closed = "dev_world\<lparr>ALLOWED_URL_HOSTS := []\<rparr>"
  let ?big = "dev_world\<lparr>http_head :=
          (\<lambda>url. \<lparr>head_status = 200,
                   head_headers = [''Content-Length'' \<mapsto> ''104857600'']\<rparr>)\<rparr>"
  have up: "file ?r = Some ?u" by (simp add: upload_request_def)
  have url: "truthy (file_url ?r)" by (simp add: truthy_def)
  have fu: "the (file_url ?r) = ?url" by simp
  have tu: "truthy (upload_filename ?u)" by (simp add: truthy_def)
  have ext: "ext_from_name ''hello.txt'' = ''.txt''" by code_simp
  have n1: "resolve_filename dev_world ?r = ''hello.txt''"
    using upload_with_url[OF up url, of dev_world] tu by simp
  have ok: "translate_file dev_world ?r
       = Some \<lparr>events = [HEAD ?url],
               outcome = Inr (StreamingResponse [0x48, 0x69] ''text/markdown''
                 [(''Content-Disposition'',
                   ''attachment; filename='' @ [CHR 0x22] @ ''hello.txt.translated.md''
                   @ [CHR 0x22])]),
               spawned = NoTask\<rparr>"
    by code_simp
  have n2: "resolve_filename ?closed ?r = ''hello.txt''"
    using upload_with_url[OF up url, of ?closed] tu by simp
  have a2: "admitted ?closed ?r"
    unfolding admitted_def n2 ext
    by (simp add: ensure_auth_def truthy_def dev_world_def upload_request_def ALLOWED_EXTS_def)
  have h2: "\<not> host_allowed ?closed (the (file_url ?r))"
    by (simp add: host_allowed_def)
  have r2: "translate_file ?closed ?r
              = Some (failed [] (HTTPException 400 ''URL host not allowed''))"
    using upload_with_url[OF up url, of ?closed] a2 h2 by blast
  have n3: "resolve_filename ?big ?r = ''hello.txt''"
    using upload_with_url[OF up url, of ?big] tu by simp
  have a3: "admitted ?big ?r"
    unfolding admitted_def n3 ext
    by (simp add: ensure_auth_def truthy_def dev_world_def upload_request_def ALLOWED_EXTS_def)
  have h3: "host_allowed ?big (the (file_url ?r))" unfolding fu by code_simp
  have hi: "head_info ?big (the (file_url ?r))
              = ([HEAD ?url], Inr (Some 104857600, None, None))"
    unfolding fu by code_simp
  have mx: "MAX_BYTES ?big < 104857600" by (simp add: dev_world_def)
  have r3: "translate_file ?big ?r
              = Some (failed [HEAD ?url] (HTTPException 413 ''File too large''))"
    using upload_with_url[OF up url, of ?big] a3 h3 hi mx unfolding fu
    by (metis zero_neq_numeral)
  show ?thesis using n1 ok r2 r3 by simp
qed

text \<open>
  The claim as stated fails on the file name: an upload sent with an empty file name is
  processed under the name taken from the URL.
\<close>

theorem upload_with_url_filename_counterexample:
  "upload_filename (the (file
     ((upload_request [] [0x48, 0x69])
        \<lparr>file_url := Some ''https://bucket.s3.amazonaws.com/docs/notes.txt''\<rparr>))) = Some []
   \<and> resolve_filename dev_world
       ((upload_request [] [0x48, 0x69])
          \<lparr>file_url := Some ''https://bucket.s3.amazonaws.com/docs/notes.txt''\<rparr>)
       = ''notes.txt''
   \<and> translate_file dev_world
       ((upload_request [] [0x48, 0x69])
          \<lparr>file_url := Some ''https://bucket.s3.amazonaws.com/docs/notes.txt''\<rparr>)
       = Some \<lparr>events = [HEAD ''https://bucket.s3.amazonaws.com/docs/notes.txt''],
               outcome = Inr (StreamingResponse [0x48, 0x69] ''text/markdown''
                 [(''Content-Disposition'',
                   ''attachment; filename='' @ [CHR 0x22] @ ''notes.txt.translated.md''
                   @ [CHR 0x22])]),
               spawned = NoTask\<rparr>"
  by code_simp

subsection \<open>The byte ceiling\<close>

lemma read_loop_ok:
  "rd = int (length (concat acc)) \<Longrightarrow> rd \<le> mx \<Longrightarrow>
   read_loop mx cs rd acc = (tr, Inr bs) \<Longrightarrow>
     bs = concat (acc @ cs) \<and> int (length bs) \<le> mx
     \<and> tr = map (\<lambda>c. READ (length c)) cs"
proof (induction cs arbitrary: rd acc tr)
  case Nil
  then show ?case by simp
next
  case (Cons c cs)
  let ?rd = "rd + int (length c)"
  from Cons.prems(3) have le: "\<not> mx < ?rd"
    by (auto simp: Let_def split: if_splits)
  obtain t2 res where rl: "read_loop mx cs ?rd (acc @ [c]) = (t2, res)"
    by (cases "read_loop mx cs ?rd (acc @ [c])")
  with Cons.prems(3) le have res: "res = Inr bs" and tr: "tr = READ (length c) # t2"
    by (auto simp: Let_def)
  have "?rd = int (length (concat (acc @ [c])))" using Cons.prems(1) by simp
  from Cons.IH[OF this _ rl[unfolded res]] le
  show ?case using tr by auto
qed

lemma read_loop_abort:
  "k < length cs \<Longrightarrow>
   rd + int (length (concat (take k cs))) \<le> mx \<Longrightarrow>
   mx < rd + int (length (concat (take (Suc k) cs))) \<Longrightarrow>
     read_loop mx cs rd acc
       = (map (\<lambda>c. READ (length c)) (take (Suc k) cs),
          Inl (HTTPException 413 ''File too large''))"
proof (induction cs arbitrary: k rd acc)
  case Nil
  then show ?case by simp
next
  case (Cons c cs)
  show ?case
  proof (cases k)
    case 0
    with Cons.prems show ?thesis by (simp add: Let_def)
  next
    case (Suc j)
    with Cons.prems have le: "\<not> mx < rd + int (length c)" by simp
    have "read_loop mx cs (rd + int (length c)) (acc @ [c])
            = (map (\<lambda>c. READ (length c)) (take (Suc j) cs),
               Inl (HTTPException 413 ''File too large''))"
      using Cons.prems Suc by (intro Cons.IH) (simp_all add: add.assoc)
    with le Suc show ?thesis by (simp add: Let_def)
  qed
qed

lemma fetch_bytes_ok:
  assumes "0 \<le> mx" and "fetch_bytes w url mx = (tr, Inr bs)"
  shows "int (length bs) \<le> mx \<and> bs = concat (get_content (http_get w url))
         \<and> tr = GET url # map (\<lambda>c. READ (length c)) (get_content (http_get w url))"
proof -
  from assms(2) have h: "host_allowed w url" and st: "get_status (http_get w url) = 200"
    by (auto simp: fetch_bytes_def Let_def split: if_splits)
  obtain t2 res where rl: "read_loop mx (get_content (http_get w url)) 0 [] = (t2, res)"
    by (cases "read_loop mx (get_content (http_get w url)) 0 []")
  with assms(2) h st have "res = Inr bs" "tr = GET url # t2"
    by (simp_all add: fetch_bytes_def Let_def)
  with read_loop_ok[OF _ assms(1) rl[unfolded \<open>res = Inr bs\<close>]] show ?thesis by auto
qed

lemma fetch_bytes_abort:
  assumes "host_allowed w url" and "get_status (http_get w url) = 200"
      and "k < length (get_content (http_get w url))"
      and "int (length (concat (take k (get_content (http_get w url))))) \<le> mx"
      and "mx < int (length (concat (take (Suc k) (get_content (http_get w url)))))"
  shows "fetch_bytes w url mx
           = (GET url # map (\<lambda>c. READ (length c)) (take (Suc k) (get_content (http_get w url))),
              Inl (HTTPException 413 ''File too large''))"
  using read_loop_abort[of k "get_content (http_get w url)" 0 mx "[]"] assms
  by (simp add: fetch_bytes_def Let_def)

lemma sourced_within_ceiling:
  assumes "0 \<le> MAX_BYTES w" and "sourced w r tr raw"
  shows "int (length raw) \<le> MAX_BYTES w"
proof -
  from assms(2) obtain tr2 where rd: "read_raw w r = (tr2, Inr raw)"
    by (auto simp: sourced_def)
  show ?thesis
  proof (cases "file r")
    case None
    with rd have "fetch_bytes w (the (file_url r)) (MAX_BYTES w) = (tr2, Inr raw)"
      by (simp add: read_raw_def)
    from fetch_bytes_ok[OF assms(1) this] show ?thesis by auto
  next
    case (Some u)
    with rd show ?thesis by (auto simp: read_raw_def Let_def split: if_splits)
  qed
qed

text \<open>
  Claim C1. The byte ceiling is a size, so it is not negative. For every request with a
  \<^verbatim>\<open>file_url\<close>: if the HEAD probe reports a declared \<^verbatim>\<open>Content-Length\<close> above the
  ceiling, the handler answers with an error and issues no GET, and once the probe has
  been sent the error is 413; an authorized request with an admissible extension and an
  allowed host is answered with 413 right after the HEAD. During the GET,
  \<^verbatim>\<open>fetch_bytes\<close> raises 413 at the first chunk with which the bytes read so far exceed
  the ceiling, without reading further, and the handler answers with that 413; so the
  bytes \<^verbatim>\<open>fetch_bytes\<close> returns, and the bytes that reach the translation step, never
  exceed the ceiling.
\<close>

theorem byte_ceiling_enforced:
  assumes nn: "0 \<le> MAX_BYTES w"
  shows "(truthy (file_url r) \<longrightarrow>
            (\<forall>tr k et ct.
               head_info w (the (file_url r)) = (tr, Inr (Some k, et, ct)) \<longrightarrow>
               MAX_BYTES w < k \<longrightarrow>
                 (\<exists>res e. translate_file w r = Some res
                    \<and> outcome res = Inl e
                    \<and> spawned res = NoTask
                    \<and> (\<forall>x. GET x \<notin> set (events res))
                    \<and> (HEAD (the (file_url r)) \<in> set (events res) \<longrightarrow>
                          e = HTTPException 413 ''File too large''))
                 \<and> (admitted w r \<longrightarrow> host_allowed w (the (file_url r)) \<longrightarrow>
                       translate_file w r
                         = Some (failed [HEAD (the (file_url r))]
                                   (HTTPException 413 ''File too large'')))))
       \<and> (\<forall>url tr bs. fetch_bytes w url (MAX_BYTES w) = (tr, Inr bs) \<longrightarrow>
              int (length bs) \<le> MAX_BYTES w)
       \<and> (\<forall>url k.
              host_allowed w url \<longrightarrow> get_status (http_get w url) = 200 \<longrightarrow>
              k < length (get_content (http_get w url)) \<longrightarrow>
              int (length (concat (take k (get_content (http_get w url))))) \<le> MAX_BYTES w \<longrightarrow>
              MAX_BYTES w < int (length (concat (take (Suc k) (get_content (http_get w url))))) \<longrightarrow>
                fetch_bytes w url (MAX_BYTES w)
                  = (GET url # map (\<lambda>c. READ (length c))
                                 (take (Suc k) (get_content (http_get w url))),
                     Inl (HTTPException 413 ''File too large'')))
       \<and> (file r = None \<longrightarrow> admitted w r \<longrightarrow>
            (\<forall>tr1 u tr2.
               check_file_url w r = (tr1, Inr u) \<longrightarrow>
               fetch_bytes w (the (file_url r)) (MAX_BYTES w)
                 = (tr2, Inl (HTTPException 413 ''File too large'')) \<longrightarrow>
                 translate_file w r
                   = Some (failed (tr1 @ tr2) (HTTPException 413 ''File too large''))))
       \<and> (\<forall>tr raw. sourced w r tr raw \<longrightarrow> int (length raw) \<le> MAX_BYTES w)"
proof -
  let ?url = "the (file_url r)"
  let ?big = "HTTPException 413 ''File too large''"
  have declared:
    "(\<exists>res e. translate_file w r = Some res
        \<and> outcome res = Inl e
        \<and> spawned res = NoTask
        \<and> (\<forall>x. GET x \<notin> set (events res))
        \<and> (HEAD ?url \<in> set (events res) \<longrightarrow> e = ?big))
     \<and> (admitted w r \<longrightarrow> host_allowed w ?url \<longrightarrow>
           translate_file w r = Some (failed [HEAD ?url] ?big))"
    if url: "truthy (file_url r)"
      and hi: "head_info w ?url = (tr, Inr (Some k, et, ct))" and k: "MAX_BYTES w < k"
    for tr k et ct
  proof -
    from nn k have k0: "k \<noteq> 0" by simp
    have adm_ok: "translate_file w r = Some (failed [HEAD ?url] ?big)"
      if "admitted w r" "host_allowed w ?url"
      using translate_file_check_fail
              [OF that(1) check_file_url_rejects_size[OF url that(2) hi k0 k]] .
    have ex: "\<exists>res e. translate_file w r = Some res
        \<and> outcome res = Inl e
        \<and> spawned res = NoTask
        \<and> (\<forall>x. GET x \<notin> set (events res))
        \<and> (HEAD ?url \<in> set (events res) \<longrightarrow> e = ?big)"
    proof (cases "ensure_auth (API_KEY w) (authorization r)")
      case (Inl a)
      from translate_file_auth_fail[OF Inl] show ?thesis by simp
    next
      case auth: (Inr v)
      show ?thesis
      proof (cases "ext_from_name (resolve_filename w r) \<noteq> []
                    \<and> ext_from_name (resolve_filename w r) \<notin> ALLOWED_EXTS")
        case True
        with translate_file_unsupported[OF auth] url show ?thesis by simp
      next
        case False
        with auth url have adm: "admitted w r" by (auto simp: admitted_def)
        show ?thesis
        proof (cases "host_allowed w ?url")
          case True
          from adm_ok[OF adm True] show ?thesis by simp
        next
          case False
          from translate_file_check_fail[OF adm check_file_url_rejects_host[OF url False]]
          show ?thesis by simp
        qed
      qed
    qed
    show ?thesis using ex adm_ok by blast
  qed
  have within: "int (length bs) \<le> MAX_BYTES w"
    if "fetch_bytes w url (MAX_BYTES w) = (tr, Inr bs)" for url tr bs
    using fetch_bytes_ok[OF nn that] by blast
  have handler: "translate_file w r = Some (failed (tr1 @ tr2) ?big)"
    if "file r = None" "admitted w r" "check_file_url w r = (tr1, Inr u)"
       "fetch_bytes w ?url (MAX_BYTES w) = (tr2, Inl ?big)"
    for tr1 u tr2
  proof -
    from that(1) that(4) have "read_raw w r = (tr2, Inl ?big)" by (simp add: read_raw_def)
    from translate_file_read_fail[OF that(2) that(3) this] show ?thesis .
  qed
  show ?thesis
    using declared within fetch_bytes_abort handler sourced_within_ceiling[OF nn]
    by (intro conjI allI impI) blast+
qed

theorem byte_ceiling_enforced_witness:
  "0 \<le> MAX_BYTES (dev_world\<lparr>http_head :=
          (\<lambda>url. \<lparr>head_status = 200,
                   head_headers = [''Content-Length'' \<mapsto> ''104857600'']\<rparr>)\<rparr>)
   \<and> translate_file
       (dev_world\<lparr>http_head :=
          (\<lambda>url. \<lparr>head_status = 200,
                   head_headers = [''Content-Length'' \<mapsto> ''104857600'']\<rparr>)\<rparr>)
       ((upload_request [] [])
          \<lparr>file := None, file_url := Some ''https://bucket.s3.amazonaws.com/docs/hello.txt''\<rparr>)
       = Some (failed [HEAD ''https://bucket.s3.amazonaws.com/docs/hello.txt'']
                 (HTTPException 413 ''File too large''))
   \<and> 0 \<le> MAX_BYTES (dev_world\<lparr>MAX_BYTES := 8,
          http_head := (\<lambda>url. \<lparr>head_status = 200, head_headers = Map.empty\<rparr>)\<rparr>)
   \<and> fetch_bytes (dev_world\<lparr>MAX_BYTES := 8,
          http_head := (\<lambda>url. \<lparr>head_status = 200, head_headers = Map.empty\<rparr>)\<rparr>)
       ''https://bucket.s3.amazonaws.com/docs/hello.txt'' 8
       = ([GET ''https://bucket.s3.amazonaws.com/docs/hello.txt'', READ 6, READ 5],
          Inl (HTTPException 413 ''File too large''))
   \<and> translate_file (dev_world\<lparr>MAX_BYTES := 8,
          http_head := (\<lambda>url. \<lparr>head_status = 200, head_headers = Map.empty\<rparr>)\<rparr>)
       ((upload_request [] [])
          \<lparr>file := None, file_url := Some ''https://bucket.s3.amazonaws.com/docs/hello.txt''\<rparr>)
       = Some (failed [HEAD ''https://bucket.s3.amazonaws.com/docs/hello.txt'',
                       GET ''https://bucket.s3.amazonaws.com/docs/hello.txt'', READ 6, READ 5]
                 (HTTPException 413 ''File too large''))"
proof -
  let ?url = "''https://bucket.s3.amazonaws.com/docs/hello.txt''"
  let ?r = "(upload_request [] [])\<lparr>file := None, file_url := Some ?url\<rparr>"
  let ?big = "dev_world\<lparr>http_head :=
          (\<lambda>url. \<lparr>head_status = 200,
                   head_headers = [''Content-Length'' \<mapsto> ''104857600'']\<rparr>)\<rparr>"
  let ?low = "dev_world\<lparr>MAX_BYTES := 8,
          http_head := (\<lambda>url. \<lparr>head_status = 200, head_headers = Map.empty\<rparr>)\<rparr>"
  have url: "truthy (file_url ?r)" by (simp add: truthy_def)
  have fu: "the (file_url ?r) = ?url" by simp
  have nofile: "file ?r = None" by simp
  have ext: "ext_from_name ''hello.txt'' = ''.txt''" by code_simp
  have nb: "0 \<le> MAX_BYTES ?big" by (simp add: dev_world_def)
  have nl: "0 \<le> MAX_BYTES ?low" by simp
  have ml: "MAX_BYTES ?low = 8" by simp
  have n1: "resolve_filename ?big ?r = ''hello.txt''"
    by (simp add: resolve_filename_def truthy_def dev_world_def)
  have a1: "admitted ?big ?r"
    unfolding admitted_def n1 ext
    by (simp add: ensure_auth_def truthy_def dev_world_def upload_request_def ALLOWED_EXTS_def)
  have h1: "host_allowed ?big (the (file_url ?r))" unfolding fu by code_simp
  have hi: "head_info ?big (the (file_url ?r))
              = ([HEAD ?url], Inr (Some 104857600, None, None))"
    unfolding fu by code_simp
  have mx: "MAX_BYTES ?big < 104857600" by (simp add: dev_world_def)
  have r1: "translate_file ?big ?r
              = Some (failed [HEAD ?url] (HTTPException 413 ''File too large''))"
    using byte_ceiling_enforced[OF nb, of ?r] url a1 h1 hi mx unfolding fu by blast
  have h2: "host_allowed ?low ?url" by code_simp
  have g2: "get_status (http_get ?low ?url) = 200" by (simp add: dev_world_def)
  have c2: "get_content (http_get ?low ?url)
              = [[0x48, 0x65, 0x6C, 0x6C, 0x6F, 0x20], [0x77, 0x6F, 0x72, 0x6C, 0x64]]"
    by (simp add: dev_world_def)
  have k2: "Suc 0 < length (get_content (http_get ?low ?url))" unfolding c2 by simp
  have p2: "int (length (concat (take (Suc 0) (get_content (http_get ?low ?url)))))
              \<le> MAX_BYTES ?low"
    unfolding c2 ml by simp
  have q2: "MAX_BYTES ?low
              < int (length (concat (take (Suc (Suc 0)) (get_content (http_get ?low ?url)))))"
    unfolding c2 ml by simp
  have "fetch_bytes ?low ?url (MAX_BYTES ?low)
          = (GET ?url # map (\<lambda>c. READ (length c))
                            (take (Suc (Suc 0)) (get_content (http_get ?low ?url))),
             Inl (HTTPException 413 ''File too large''))"
    using byte_ceiling_enforced[OF nl, of ?r] h2 g2 k2 p2 q2 by blast
  then have r2: "fetch_bytes ?low ?url 8
          = ([GET ?url, READ 6, READ 5], Inl (HTTPException 413 ''File too large''))"
    unfolding c2 ml by simp
  have n3: "resolve_filename ?low ?r = ''hello.txt''"
    by (simp add: resolve_filename_def truthy_def dev_world_def)
  have a3: "admitted ?low ?r"
    unfolding admitted_def n3 ext
    by (simp add: ensure_auth_def truthy_def dev_world_def upload_request_def ALLOWED_EXTS_def)
  have c3: "check_file_url ?low ?r = ([HEAD ?url], Inr ())" by code_simp
  have f3: "fetch_bytes ?low (the (file_url ?r)) (MAX_BYTES ?low)
              = ([GET ?url, READ 6, READ 5], Inl (HTTPException 413 ''File too large''))"
    unfolding fu ml by (rule r2)
  have "translate_file ?low ?r
          = Some (failed ([HEAD ?url] @ [GET ?url, READ 6, READ 5])
                    (HTTPException 413 ''File too large''))"
    using byte_ceiling_enforced[OF nl, of ?r] nofile a3 c3 f3 by blast
  then have r3: "translate_file ?low ?r
          = Some (failed [HEAD ?url, GET ?url, READ 6, READ 5]
                    (HTTPException 413 ''File too large''))"
    by simp
  show ?thesis using nb r1 nl r2 r3 by blast
qed

subsection \<open>Joining the translated chunks\<close>

lemma gather_run_ok:
  "length slots = length outs \<Longrightarrow>
   \<forall>k\<in>set order. k < length outs \<longrightarrow> (\<exists>r. outs ! k = Inr r) \<Longrightarrow>
   gather_run order outs slots
     = Inr (map (\<lambda>k. if k \<in> set order then Some (projr (outs ! k)) else slots ! k)
                [0..<length outs])"
proof (induction order arbitrary: slots)
  case Nil
  have "slots = map (\<lambda>k. slots ! k) [0..<length outs]"
    using Nil(1) by (intro nth_equalityI) simp_all
  then show ?case by simp
next
  case (Cons k ks)
  have rest: "\<forall>j\<in>set ks. j < length outs \<longrightarrow> (\<exists>r. outs ! j = Inr r)"
    using Cons.prems(2) by simp
  show ?case
  proof (cases "k < length outs")
    case True
    with Cons.prems(2) obtain r where r: "outs ! k = Inr r" by auto
    have len: "length (slots[k := Some r]) = length outs" using Cons.prems(1) by simp
    have step: "gather_run (k # ks) outs slots = gather_run ks outs (slots[k := Some r])"
      using True r by simp
    have same: "map (\<lambda>j. if j \<in> set ks then Some (projr (outs ! j))
                               else slots[k := Some r] ! j) [0..<length outs]
                 = map (\<lambda>j. if j \<in> set (k # ks) then Some (projr (outs ! j))
                               else slots ! j) [0..<length outs]"
    proof (rule map_cong[OF refl])
      fix j assume "j \<in> set [0..<length outs]"
      then have j: "j < length slots" using Cons.prems(1) by simp
      show "(if j \<in> set ks then Some (projr (outs ! j)) else slots[k := Some r] ! j)
          = (if j \<in> set (k # ks) then Some (projr (outs ! j)) else slots ! j)"
      proof (cases "j = k")
        case True
        with j r show ?thesis by simp
      next
        case False
        then show ?thesis by simp
      qed
    qed
    show ?thesis unfolding step Cons.IH[OF len rest] same ..
  next
    case False
    have step: "gather_run (k # ks) outs slots = gather_run ks outs slots"
      using False by simp
    have same: "map (\<lambda>j. if j \<in> set ks then Some (projr (outs ! j)) else slots ! j)
                       [0..<length outs]
                 = map (\<lambda>j. if j \<in> set (k # ks) then Some (projr (outs ! j)) else slots ! j)
                       [0..<length outs]"
    proof (rule map_cong[OF refl])
      fix j assume "j \<in> set [0..<length outs]"
      then have "j \<noteq> k" using False by auto
      then show "(if j \<in> set ks then Some (projr (outs ! j)) else slots ! j)
          = (if j \<in> set (k # ks) then Some (projr (outs ! j)) else slots ! j)"
        by simp
    qed
    show ?thesis unfolding step Cons.IH[OF Cons.prems(1) rest] same ..
  qed
qed


lemma gather_run_completed:
  "gather_run order outs slots = Inr s \<Longrightarrow>
   \<forall>k\<in>set order. k < length outs \<longrightarrow> (\<exists>r. outs ! k = Inr r)"
proof (induction order arbitrary: slots)
  case Nil
  show ?case by simp
next
  case (Cons k ks)
  show ?case
  proof (cases "k < length outs")
    case True
    show ?thesis
    proof (cases "outs ! k")
      case (Inl e)
      with True Cons.prems show ?thesis by simp
    next
      case (Inr r)
      with True Cons.prems have "gather_run ks outs (slots[k := Some r]) = Inr s" by simp
      from Cons.IH[OF this] Inr show ?thesis by simp
    qed
  next
    case False
    with Cons.prems have "gather_run ks outs slots = Inr s" by simp
    from Cons.IH[OF this] False show ?thesis by simp
  qed
qed

lemma gather_ok:
  assumes ok: "\<forall>k<length outs. \<exists>r. outs ! k = Inr r"
    and all: "{..<length outs} \<subseteq> set order"
  shows "gather order outs = Some (Inr (map projr outs))"
proof -
  let ?slots = "map (\<lambda>k. if k \<in> set order then Some (projr (outs ! k))
                          else replicate (length outs) None ! k) [0..<length outs]"
  have fin: "\<forall>k\<in>set order. k < length outs \<longrightarrow> (\<exists>r. outs ! k = Inr r)"
    using ok by blast
  have run: "gather_run order outs (replicate (length outs) None) = Inr ?slots"
    by (rule gather_run_ok[OF _ fin]) simp
  have slots: "?slots = map (\<lambda>k. Some (projr (outs ! k))) [0..<length outs]"
  proof (rule map_cong[OF refl])
    fix k assume "k \<in> set [0..<length outs]"
    then have "k \<in> set order" using all by auto
    then show "(if k \<in> set order then Some (projr (outs ! k))
                else replicate (length outs) None ! k) = Some (projr (outs ! k))"
      by simp
  qed
  have the: "map the (map (\<lambda>k. Some (projr (outs ! k))) [0..<length outs]) = map projr outs"
    by (intro nth_equalityI) simp_all
  have full: "None \<notin> set (map (\<lambda>k. Some (projr (outs ! k))) [0..<length outs])"
    by auto
  show ?thesis unfolding gather_def run slots using the full by simp
qed

lemma gather_returned:
  assumes g: "gather order outs = Some (Inr rs)"
  shows "rs = map projr outs \<and> (\<forall>k<length outs. \<exists>r. outs ! k = Inr r)
         \<and> {..<length outs} \<subseteq> set order"
proof -
  obtain s where run: "gather_run order outs (replicate (length outs) None) = Inr s"
    and full: "None \<notin> set s"
  proof (cases "gather_run order outs (replicate (length outs) None)")
    case (Inl e)
    with g show ?thesis by (simp add: gather_def)
  next
    case (Inr s)
    with g have "None \<notin> set s" by (simp add: gather_def split: if_splits)
    with Inr that show ?thesis by blast
  qed
  have fin: "\<forall>k\<in>set order. k < length outs \<longrightarrow> (\<exists>r. outs ! k = Inr r)"
    using gather_run_completed[OF run] .
  have "gather_run order outs (replicate (length outs) None)
          = Inr (map (\<lambda>k. if k \<in> set order then Some (projr (outs ! k))
                          else replicate (length outs) None ! k) [0..<length outs])"
    by (rule gather_run_ok[OF _ fin]) simp
  with run have s: "s = map (\<lambda>k. if k \<in> set order then Some (projr (outs ! k))
                          else replicate (length outs) None ! k) [0..<length outs]"
    by simp
  have all: "k \<in> set order" if k: "k < length outs" for k
  proof (rule ccontr)
    assume "k \<notin> set order"
    with k have "s ! k = None" unfolding s by simp
    moreover from k have "k < length s" unfolding s by simp
    ultimately have "None \<in> set s" by (metis nth_mem)
    with full show False by simp
  qed
  then have sub: "{..<length outs} \<subseteq> set order" by auto
  from all fin have ok: "\<forall>k<length outs. \<exists>r. outs ! k = Inr r" by blast
  from gather_ok[OF ok sub] g have "rs = map projr outs" by simp
  with ok sub show ?thesis by simp
qed

lemma enumerate_nth:
  "i < length cs \<Longrightarrow> map f (zip [1..<Suc (length cs)] cs) ! i = f (Suc i, cs ! i)"
  by (simp del: upt_Suc)

lemma translate_gather:
  "chunks (chunk_chars b) text = Some (Inr cs) \<Longrightarrow>
   translate (BedrockSeaLionTranslator b) order text tgt src fmt
     = (case gather order
               (map (\<lambda>(idx, chunk). map_sum PyException id
                                        (invoke b (prompt tgt src fmt idx chunk)))
                    (zip [1..<Suc (length cs)] cs)) of
          None \<Rightarrow> None
        | Some (Inl e) \<Rightarrow> Some (Inl e)
        | Some (Inr translated_chunks) \<Rightarrow>
            Some (Inr (join (lit [CHR 0x0A]) translated_chunks)))"
  by (simp add: BedrockSeaLionTranslator_translate_def del: upt_Suc)

lemma int_times_0_05_4: "int_times_0_05 4 = Inr 0"
  by (simp add: int_times_0_05_def round53_def bit_length.simps Let_def)

lemma prompt_shape:
  "\<exists>h. prompt tgt src fmt idx chunk
         = h @ [10] @ chunk @ [10, 10, 84, 114, 97, 110, 115, 108, 97, 116, 105, 111, 110, 58]"
  unfolding prompt_def lit_def
  by (intro exI[of _ "map of_char (''System: '' @ system_prompt src @ [CHR 0x0A, CHR 0x0A]
          @ ''Target language: '' @ tgt @ [CHR 0x0A]
          @ ''Return format: ''
          @ (if fmt = ''markdown'' then ''Markdown'' else ''Plain text'')
          @ [CHR 0x0A, CHR 0x0A]
          @ ''Text chunk '' @ str_nat idx @ '' to translate:'')"]) simp

lemma echo_invoke_prompt:
  assumes "10 \<notin> set chunk"
  shows "echo_invoke (prompt tgt src fmt idx chunk) = Inr chunk"
proof -
  obtain h where h: "prompt tgt src fmt idx chunk
         = h @ [10] @ chunk @ [10, 10, 84, 114, 97, 110, 115, 108, 97, 116, 105, 111, 110, 58]"
    using prompt_shape by blast
  have "takeWhile (\<lambda>c. c \<noteq> 10) (rev chunk @ 10 # rev h)
          = rev chunk @ takeWhile (\<lambda>c. c \<noteq> 10) (10 # rev h)"
    by (rule takeWhile_append2) (use assms in auto)
  then have "takeWhile (\<lambda>c. c \<noteq> 10) (rev chunk @ 10 # rev h) = rev chunk" by simp
  then show ?thesis unfolding echo_invoke_def h by simp
qed

text \<open>
  Claim C4. Let the text split into the chunks \<open>cs\<close>. If every model invocation returns
  and every one of the concurrent invocations completes, in whatever order, then
  \<^verbatim>\<open>translate\<close> returns the translations of the chunks joined with newlines in the order
  of the chunks, the \<open>i\<close>-th being the answer to the prompt numbered \<open>i + 1\<close> on the
  \<open>i\<close>-th chunk. Whenever \<^verbatim>\<open>translate\<close> returns, it returns that text, so two runs that
  differ only in the completion order return the same text.
\<close>

theorem translate_joins_in_chunk_order:
  assumes cs: "chunks (chunk_chars b) text = Some (Inr cs)"
  shows "((\<forall>i<length cs. \<exists>t. invoke b (prompt tgt src fmt (Suc i) (cs ! i)) = Inr t) \<longrightarrow>
          {..<length cs} \<subseteq> set order \<longrightarrow>
            translate (BedrockSeaLionTranslator b) order text tgt src fmt
              = Some (Inr (join (lit [CHR 0x0A])
                   (map (\<lambda>i. projr (invoke b (prompt tgt src fmt (Suc i) (cs ! i))))
                        [0..<length cs]))))
       \<and> (\<forall>out. translate (BedrockSeaLionTranslator b) order text tgt src fmt = Some (Inr out) \<longrightarrow>
              out = join (lit [CHR 0x0A])
                      (map (\<lambda>i. projr (invoke b (prompt tgt src fmt (Suc i) (cs ! i))))
                           [0..<length cs])
              \<and> (\<forall>i<length cs. \<exists>t. invoke b (prompt tgt src fmt (Suc i) (cs ! i)) = Inr t)
              \<and> {..<length cs} \<subseteq> set order)
       \<and> (\<forall>order' out out'.
              translate (BedrockSeaLionTranslator b) order text tgt src fmt = Some (Inr out) \<longrightarrow>
              translate (BedrockSeaLionTranslator b) order' text tgt src fmt = Some (Inr out') \<longrightarrow>
                out' = out)"
proof -
  let ?task = "\<lambda>(idx, chunk). map_sum PyException id (invoke b (prompt tgt src fmt idx chunk))"
  let ?ans = "\<lambda>i. invoke b (prompt tgt src fmt (Suc i) (cs ! i))"
  let ?joined = "join (lit [CHR 0x0A]) (map (\<lambda>i. projr (?ans i)) [0..<length cs])"
  define outs where "outs = map ?task (zip [1..<Suc (length cs)] cs)"
  have run: "translate (BedrockSeaLionTranslator b) ord text tgt src fmt
     = (case gather ord outs of
          None \<Rightarrow> None
        | Some (Inl e) \<Rightarrow> Some (Inl e)
        | Some (Inr translated_chunks) \<Rightarrow>
            Some (Inr (join (lit [CHR 0x0A]) translated_chunks)))" for ord
    unfolding outs_def by (rule translate_gather[OF cs])
  have len: "length outs = length cs" unfolding outs_def by (simp del: upt_Suc)
  have nth: "outs ! i = map_sum PyException id (?ans i)" if "i < length cs" for i
    unfolding outs_def using enumerate_nth[OF that, of ?task] by simp
  have inr: "(\<exists>r. outs ! i = Inr r) \<longleftrightarrow> (\<exists>t. ?ans i = Inr t)" if "i < length cs" for i
    unfolding nth[OF that] by (cases "?ans i") simp_all
  have proj: "map projr outs = map (\<lambda>i. projr (?ans i)) [0..<length cs]"
    if ok: "\<forall>i<length cs. \<exists>t. ?ans i = Inr t"
  proof (rule nth_equalityI)
    show "length (map projr outs) = length (map (\<lambda>i. projr (?ans i)) [0..<length cs])"
      using len by simp
  next
    fix i assume "i < length (map projr outs)"
    then have i: "i < length cs" using len by simp
    from ok i obtain t where t: "?ans i = Inr t" by blast
    have "map projr outs ! i = projr (outs ! i)" using i len by simp
    also have "\<dots> = t" unfolding nth[OF i] t by simp
    finally show "map projr outs ! i = map (\<lambda>i. projr (?ans i)) [0..<length cs] ! i"
      using i t by simp
  qed
  have forth: "translate (BedrockSeaLionTranslator b) ord text tgt src fmt = Some (Inr ?joined)"
    if ok: "\<forall>i<length cs. \<exists>t. ?ans i = Inr t" and all: "{..<length cs} \<subseteq> set ord" for ord
  proof -
    have "\<forall>k<length outs. \<exists>r. outs ! k = Inr r" using ok inr unfolding len by blast
    moreover have "{..<length outs} \<subseteq> set ord" using all unfolding len .
    ultimately have "gather ord outs = Some (Inr (map projr outs))" by (rule gather_ok)
    then show ?thesis unfolding run proj[OF ok] by simp
  qed
  have conv: "out = ?joined \<and> (\<forall>i<length cs. \<exists>t. ?ans i = Inr t) \<and> {..<length cs} \<subseteq> set ord"
    if ret: "translate (BedrockSeaLionTranslator b) ord text tgt src fmt = Some (Inr out)"
    for ord out
  proof -
    from ret obtain rs where g: "gather ord outs = Some (Inr rs)"
      and out: "out = join (lit [CHR 0x0A]) rs"
      unfolding run
      by (cases "gather ord outs") (auto split: sum.splits)
    from gather_returned[OF g] have rs: "rs = map projr outs"
      and fin: "\<forall>k<length outs. \<exists>r. outs ! k = Inr r"
      and all: "{..<length outs} \<subseteq> set ord"
      by blast+
    from fin inr have ok: "\<forall>i<length cs. \<exists>t. ?ans i = Inr t" unfolding len by blast
    from all have sub: "{..<length cs} \<subseteq> set ord" unfolding len .
    from out rs proj[OF ok] have "out = ?joined" by simp
    with ok sub show ?thesis by blast
  qed
  show ?thesis
  proof (intro conjI allI impI)
    assume "\<forall>i<length cs. \<exists>t. ?ans i = Inr t" "{..<length cs} \<subseteq> set order"
    then show "translate (BedrockSeaLionTranslator b) order text tgt src fmt = Some (Inr ?joined)"
      by (rule forth)
  next
    fix out
    assume "translate (BedrockSeaLionTranslator b) order text tgt src fmt = Some (Inr out)"
    from conv[OF this] show "out = ?joined" by blast
  next
    fix out
    assume "translate (BedrockSeaLionTranslator b) order text tgt src fmt = Some (Inr out)"
    from conv[OF this] show "{..<length cs} \<subseteq> set order" by blast
  next
    fix out i
    assume "translate (BedrockSeaLionTranslator b) order text tgt src fmt = Some (Inr out)"
      and "i < length cs"
    with conv[of order out] show "\<exists>t. ?ans i = Inr t" by blast
  next
    fix order' out out'
    assume "translate (BedrockSeaLionTranslator b) order text tgt src fmt = Some (Inr out)"
      and "translate (BedrockSeaLionTranslator b) order' text tgt src fmt = Some (Inr out')"
    with conv[of order out] conv[of order' out'] show "out' = out" by simp
  qed
qed

theorem translate_joins_in_chunk_order_witness:
  "chunks (chunk_chars \<lparr>chunk_chars = 4, invoke = echo_invoke\<rparr>)
          [97, 98, 99, 100, 101, 102, 103, 104, 105, 106]
     = Some (Inr [[97, 98, 99, 100], [101, 102, 103, 104], [105, 106]])
   \<and> translate (BedrockSeaLionTranslator \<lparr>chunk_chars = 4, invoke = echo_invoke\<rparr>)
       [2, 0, 1] [97, 98, 99, 100, 101, 102, 103, 104, 105, 106] ''vi'' None ''markdown''
     = Some (Inr [97, 98, 99, 100, 10, 101, 102, 103, 104, 10, 105, 106])
   \<and> translate (BedrockSeaLionTranslator \<lparr>chunk_chars = 4, invoke = echo_invoke\<rparr>)
       [0, 1, 2] [97, 98, 99, 100, 101, 102, 103, 104, 105, 106] ''vi'' None ''markdown''
     = Some (Inr [97, 98, 99, 100, 10, 101, 102, 103, 104, 10, 105, 106])"
proof -
  let ?b = "\<lparr>chunk_chars = 4, invoke = echo_invoke\<rparr> :: bedrock"
  let ?t = "[97, 98, 99, 100, 101, 102, 103, 104, 105, 106] :: str"
  let ?cs = "[[97, 98, 99, 100], [101, 102, 103, 104], [105, 106]] :: str list"
  let ?out = "[97, 98, 99, 100, 10, 101, 102, 103, 104, 10, 105, 106] :: str"
  have cs: "chunks (chunk_chars ?b) ?t = Some (Inr ?cs)"
    by (simp add: chunks_def int_times_0_05_4 chunks_loop.simps py_slice_def Let_def)
  have a0: "invoke ?b (prompt ''vi'' None ''markdown'' (Suc 0) (?cs ! 0)) = Inr [97, 98, 99, 100]"
    by (simp add: echo_invoke_prompt)
  have a1: "invoke ?b (prompt ''vi'' None ''markdown'' (Suc 1) (?cs ! 1)) = Inr [101, 102, 103, 104]"
    by (simp add: echo_invoke_prompt)
  have a2: "invoke ?b (prompt ''vi'' None ''markdown'' (Suc 2) (?cs ! 2)) = Inr [105, 106]"
    by (simp add: echo_invoke_prompt)
  have ans: "\<forall>i<length ?cs. \<exists>t. invoke ?b (prompt ''vi'' None ''markdown'' (Suc i) (?cs ! i)) = Inr t"
    by (simp add: echo_invoke_def)
  have o1: "{..<length ?cs} \<subseteq> set [2, 0, 1]" by code_simp
  have o2: "{..<length ?cs} \<subseteq> set [0, 1, 2]" by code_simp
  have upt: "[0..<length ?cs] = [0, 1, 2]" by code_simp
  have val: "join (lit [CHR 0x0A])
               (map (\<lambda>i. projr (invoke ?b (prompt ''vi'' None ''markdown'' (Suc i) (?cs ! i))))
                    [0..<length ?cs])
             = ?out"
    unfolding upt list.map a0 a1 a2 by (simp add: lit_def)
  have r1: "translate (BedrockSeaLionTranslator ?b) [2, 0, 1] ?t ''vi'' None ''markdown''
              = Some (Inr ?out)"
    using translate_joins_in_chunk_order[OF cs, of "''vi''" None "''markdown''" "[2, 0, 1]"]
          ans o1
    unfolding val by blast
  have r2: "translate (BedrockSeaLionTranslator ?b) [0, 1, 2] ?t ''vi'' None ''markdown''
              = Some (Inr ?out)"
    using translate_joins_in_chunk_order[OF cs, of "''vi''" None "''markdown''" "[0, 1, 2]"]
          ans o2
    unfolding val by blast
  show ?thesis using cs r1 r2 by blast
qed

end
